theory Spec2Isabelle
  imports Main
begin

section \<open>Strings\<close>

text \<open>
  Go strings are byte strings. The functions of package \<^verbatim>\<open>strings\<close> that the program
  calls, on bytes.
\<close>

fun stripPrefix :: "string \<Rightarrow> string \<Rightarrow> string option" where
  "stripPrefix [] s = Some s"
| "stripPrefix (c # cs) [] = None"
| "stripPrefix (c # cs) (d # ds) = (if c = d then stripPrefix cs ds else None)"

definition HasPrefix :: "string \<Rightarrow> string \<Rightarrow> bool" where
  "HasPrefix s w = (stripPrefix w s \<noteq> None)"

text \<open>\<^verbatim>\<open>strings.Index\<close>: the offset of the first occurrence, \<open>None\<close> for Go's -1.\<close>

fun Index :: "string \<Rightarrow> string \<Rightarrow> nat option" where
  "Index [] w = (if w = [] then Some 0 else None)"
| "Index (c # cs) w =
     (if HasPrefix (c # cs) w then Some 0 else map_option Suc (Index cs w))"

definition Contains :: "string \<Rightarrow> string \<Rightarrow> bool" where
  "Contains s w = (Index s w \<noteq> None)"

text \<open>\<^verbatim>\<open>strings.Replace(s, old, new, 1)\<close> for a non-empty \<open>old\<close>.\<close>

definition ReplaceFirst :: "string \<Rightarrow> string \<Rightarrow> string \<Rightarrow> string" where
  "ReplaceFirst s old new =
     (case Index s old of
        None \<Rightarrow> s
      | Some i \<Rightarrow> take i s @ new @ drop (i + length old) s)"

text \<open>
  \<^verbatim>\<open>unicode.IsSpace\<close> on UTF-8: the byte sequences of the white-space code points
  (tab, LF, VT, FF, CR, space, U+0085, U+00A0, U+1680, U+2000 to U+200A, U+2028, U+2029,
  U+202F, U+205F, U+3000). \<open>spaceLen s\<close> is the width of the white-space code point at
  the head of \<open>s\<close>, 0 if there is none.
\<close>

definition spaceSeqs :: "string list" where
  "spaceSeqs =
     [[CHR 0x09], [CHR 0x0A], [CHR 0x0B], [CHR 0x0C], [CHR 0x0D], [CHR 0x20],
      [CHR 0xC2, CHR 0x85], [CHR 0xC2, CHR 0xA0], [CHR 0xE1, CHR 0x9A, CHR 0x80],
      [CHR 0xE2, CHR 0x80, CHR 0x80], [CHR 0xE2, CHR 0x80, CHR 0x81],
      [CHR 0xE2, CHR 0x80, CHR 0x82], [CHR 0xE2, CHR 0x80, CHR 0x83],
      [CHR 0xE2, CHR 0x80, CHR 0x84], [CHR 0xE2, CHR 0x80, CHR 0x85],
      [CHR 0xE2, CHR 0x80, CHR 0x86], [CHR 0xE2, CHR 0x80, CHR 0x87],
      [CHR 0xE2, CHR 0x80, CHR 0x88], [CHR 0xE2, CHR 0x80, CHR 0x89],
      [CHR 0xE2, CHR 0x80, CHR 0x8A], [CHR 0xE2, CHR 0x80, CHR 0xA8],
      [CHR 0xE2, CHR 0x80, CHR 0xA9], [CHR 0xE2, CHR 0x80, CHR 0xAF],
      [CHR 0xE2, CHR 0x81, CHR 0x9F], [CHR 0xE3, CHR 0x80, CHR 0x80]]"

definition spaceLen :: "string \<Rightarrow> nat" where
  "spaceLen s = (case find (HasPrefix s) spaceSeqs of None \<Rightarrow> 0 | Some w \<Rightarrow> length w)"

definition spaceLenRev :: "string \<Rightarrow> nat" where
  "spaceLenRev s = (case find (HasPrefix s) (map rev spaceSeqs) of None \<Rightarrow> 0 | Some w \<Rightarrow> length w)"

function trimLeft :: "string \<Rightarrow> string" where
  "trimLeft s = (if s = [] \<or> spaceLen s = 0 then s else trimLeft (drop (spaceLen s) s))"
  by pat_completeness auto
termination
  by (relation "measure length") (auto intro!: diff_less)

declare trimLeft.simps [simp del]

function trimLeftRev :: "string \<Rightarrow> string" where
  "trimLeftRev s =
     (if s = [] \<or> spaceLenRev s = 0 then s else trimLeftRev (drop (spaceLenRev s) s))"
  by pat_completeness auto
termination
  by (relation "measure length") (auto intro!: diff_less)

declare trimLeftRev.simps [simp del]

text \<open>
  \<^verbatim>\<open>strings.TrimSpace\<close>: leading white space is removed code point by code point
  from the front, trailing white space from the back.
\<close>

definition TrimSpace :: "string \<Rightarrow> string" where
  "TrimSpace s = rev (trimLeftRev (rev (trimLeft s)))"

text \<open>\<^verbatim>\<open>strings.Fields\<close>: the maximal runs of bytes between white-space code points.\<close>

function fieldsFrom :: "string \<Rightarrow> string \<Rightarrow> string list" where
  "fieldsFrom cur s =
     (if s = [] then (if cur = [] then [] else [rev cur])
      else if spaceLen s = 0 then fieldsFrom (hd s # cur) (tl s)
      else (if cur = [] then [] else [rev cur]) @ fieldsFrom [] (drop (spaceLen s) s))"
  by pat_completeness auto
termination
  by (relation "measure (\<lambda>(cur, s). length s)") (auto intro!: diff_less)

declare fieldsFrom.simps [simp del]

definition Fields :: "string \<Rightarrow> string list" where
  "Fields s = fieldsFrom [] s"

text \<open>
  \<^verbatim>\<open>filepath.Base\<close> with \<^verbatim>\<open>/\<close> as the separator: trailing separators are
  stripped, the last element is returned, \<^verbatim>\<open>.\<close> for the empty path and \<^verbatim>\<open>/\<close>
  for a path of separators only.
\<close>

definition Base :: "string \<Rightarrow> string" where
  "Base path =
     (if path = [] then ''.''
      else let p = rev (dropWhile (\<lambda>c. c = CHR ''/'') (rev path));
               e = rev (takeWhile (\<lambda>c. c \<noteq> CHR ''/'') (rev p))
           in if e = [] then ''/'' else e)"


section \<open>Entity decoding\<close>

text \<open>
  \<^verbatim>\<open>html.UnescapeString\<close> belongs to Go's standard library, not to the program; it is
  modelled after the library's algorithm (\<^verbatim>\<open>unescapeEntity\<close> of package
  \<^verbatim>\<open>html\<close> with \<^verbatim>\<open>attribute = false\<close>). The library's tables of named
  entities are the parameters \<open>entity\<close> (a name, with or without its closing
  semicolon, to one code point, 0 for a name that is absent) and \<open>entity2\<close> (a name to
  two code points).
\<close>

record entityTables =
  entity :: "string \<Rightarrow> int"
  entity2 :: "string \<Rightarrow> int \<times> int"

text \<open>\<^verbatim>\<open>utf8.EncodeRune\<close>; a code point that is out of range or a surrogate is
  written as U+FFFD.\<close>

definition byteOf :: "int \<Rightarrow> char" where
  "byteOf n = char_of (nat n)"

definition EncodeRune :: "int \<Rightarrow> string" where
  "EncodeRune r =
     (if 0 \<le> r \<and> r \<le> 0x7F then [byteOf r]
      else if 0 \<le> r \<and> r \<le> 0x7FF then [byteOf (0xC0 + r div 64), byteOf (0x80 + r mod 64)]
      else if r < 0 \<or> 0x10FFFF < r \<or> (0xD800 \<le> r \<and> r \<le> 0xDFFF)
        then [CHR 0xEF, CHR 0xBF, CHR 0xBD]
      else if r \<le> 0xFFFF
        then [byteOf (0xE0 + r div 4096), byteOf (0x80 + (r div 64) mod 64), byteOf (0x80 + r mod 64)]
      else [byteOf (0xF0 + r div 262144), byteOf (0x80 + (r div 4096) mod 64),
            byteOf (0x80 + (r div 64) mod 64), byteOf (0x80 + r mod 64)])"

text \<open>Arithmetic on \<^verbatim>\<open>rune\<close>, a 32-bit signed integer, wraps around.\<close>

definition wrap32 :: "int \<Rightarrow> int" where
  "wrap32 v = (v + 2147483648) mod 4294967296 - 2147483648"

text \<open>The library's table for the code points 0x80 to 0x9F (Windows-1252).\<close>

definition replacementTable :: "int list" where
  "replacementTable =
     [0x20AC, 0x0081, 0x201A, 0x0192, 0x201E, 0x2026, 0x2020, 0x2021,
      0x02C6, 0x2030, 0x0160, 0x2039, 0x0152, 0x008D, 0x017D, 0x008F,
      0x0090, 0x2018, 0x2019, 0x201C, 0x201D, 0x2022, 0x2013, 0x2014,
      0x02DC, 0x2122, 0x0161, 0x203A, 0x0153, 0x009D, 0x017E, 0x0178]"

definition isAlnum :: "char \<Rightarrow> bool" where
  "isAlnum c \<longleftrightarrow>
     (let n = of_char c :: nat in
      (97 \<le> n \<and> n \<le> 122) \<or> (65 \<le> n \<and> n \<le> 90) \<or> (48 \<le> n \<and> n \<le> 57))"

definition hexVal :: "char \<Rightarrow> int option" where
  "hexVal c =
     (let n = of_char c :: int in
      if 48 \<le> n \<and> n \<le> 57 then Some (n - 48)
      else if 97 \<le> n \<and> n \<le> 102 then Some (n - 97 + 10)
      else if 65 \<le> n \<and> n \<le> 70 then Some (n - 65 + 10)
      else None)"

definition decVal :: "char \<Rightarrow> int option" where
  "decVal c = (let n = of_char c :: int in if 48 \<le> n \<and> n \<le> 57 then Some (n - 48) else None)"

text \<open>
  The digit loop of a numeric reference: \<open>digits hex x i s\<close> reads \<open>s\<close> from offset
  \<open>i\<close> of the entity on and returns the value and the offset after the digits, a
  closing semicolon included.
\<close>

fun digits :: "bool \<Rightarrow> int \<Rightarrow> nat \<Rightarrow> string \<Rightarrow> int \<times> nat" where
  "digits hex x i [] = (x, i)"
| "digits hex x i (c # cs) =
     (case (if hex then hexVal c else decVal c) of
        Some d \<Rightarrow> digits hex (wrap32 ((if hex then 16 else 10) * x + d)) (i + 1) cs
      | None \<Rightarrow> (x, if c = CHR '';'' then i + 1 else i))"

text \<open>
  \<open>prefixEntity tabs name j\<close> is the loop \<^verbatim>\<open>for j := maxLen; j > 1; j--\<close> that
  looks for a name without semicolon among the prefixes of the text read.
\<close>

fun prefixEntity :: "entityTables \<Rightarrow> string \<Rightarrow> nat \<Rightarrow> (string \<times> nat) option" where
  "prefixEntity tabs name j =
     (if j \<le> 1 then None
      else if entity tabs (take j name) \<noteq> 0
        then Some (EncodeRune (entity tabs (take j name)), j + 1)
      else prefixEntity tabs name (j - 1))"

declare prefixEntity.simps [simp del]

text \<open>
  \<open>unescapeEntity tabs s\<close>, for \<open>s\<close> beginning with an ampersand: the bytes written
  and the number of bytes of \<open>s\<close> read.
\<close>

definition unescapeEntity :: "entityTables \<Rightarrow> string \<Rightarrow> string \<times> nat" where
  "unescapeEntity tabs s =
     (if length s \<le> 1 then (take 1 s, 1)
      else if s ! 1 = CHR ''#'' then
        (if length s \<le> 3 then (take 1 s, 1)
         else let hex = (s ! 2 = CHR ''x'' \<or> s ! 2 = CHR ''X'');
                  i0 = (if hex then 3 else 2);
                  (x, i) = digits hex 0 i0 (drop i0 s)
              in if i \<le> 3 then (take 1 s, 1)
                 else if 0x80 \<le> x \<and> x \<le> 0x9F
                   then (EncodeRune (replacementTable ! nat (x - 0x80)), i)
                 else if x = 0 \<or> (0xD800 \<le> x \<and> x \<le> 0xDFFF) \<or> 0x10FFFF < x
                   then (EncodeRune 0xFFFD, i)
                 else (EncodeRune x, i))
      else
        let run = takeWhile isAlnum (tl s);
            after = drop (1 + length run) s;
            entityName = (if after \<noteq> [] \<and> hd after = CHR '';'' then run @ '';'' else run);
            i = 1 + length entityName
        in if entityName = [] then (take i s, i)
           else if entity tabs entityName \<noteq> 0 then (EncodeRune (entity tabs entityName), i)
           else if fst (entity2 tabs entityName) \<noteq> 0
             then (EncodeRune (fst (entity2 tabs entityName))
                     @ EncodeRune (snd (entity2 tabs entityName)), i)
           else (case prefixEntity tabs entityName (min (length entityName - 1) 6) of
                   Some r \<Rightarrow> r
                 | None \<Rightarrow> (take i s, i)))"

text \<open>
  \<^verbatim>\<open>html.UnescapeString\<close>: bytes other than the ampersand are copied, at an
  ampersand \<open>unescapeEntity\<close> decides; the decoder never looks again at what it has
  written.
\<close>

function UnescapeString :: "entityTables \<Rightarrow> string \<Rightarrow> string" where
  "UnescapeString tabs [] = []"
| "UnescapeString tabs (c # cs) =
     (if c \<noteq> CHR ''&'' then c # UnescapeString tabs cs
      else let (out, n) = unescapeEntity tabs (c # cs)
           in out @ UnescapeString tabs (drop (max 1 n) (c # cs)))"
  by pat_completeness auto
termination
  by (relation "measure (\<lambda>(tabs, s). length s)") auto

text \<open>A few entries of the library's table, for the examples.\<close>

definition sampleTables :: entityTables where
  "sampleTables =
     \<lparr> entity = (\<lambda>n. if n \<in> {''amp;'', ''amp'', ''AMP;'', ''AMP''} then 38
                     else if n \<in> {''lt;'', ''lt'', ''LT;'', ''LT''} then 60
                     else if n \<in> {''gt;'', ''gt'', ''GT;'', ''GT''} then 62
                     else if n \<in> {''quot;'', ''quot'', ''QUOT;'', ''QUOT''} then 34
                     else if n = ''apos;'' then 39
                     else if n \<in> {''nbsp;'', ''nbsp''} then 160
                     else 0),
       entity2 = (\<lambda>n. (0, 0)) \<rparr>"


section \<open>Regular expressions\<close>

text \<open>
  Go's \<^verbatim>\<open>regexp\<close> finds, at a start offset, the match that a backtracking matcher
  tries first (leftmost-first), and searches start offsets from left to right. The
  matcher below is that backtracking matcher, in continuation-passing style, for the
  constructs that the program's patterns use: a literal, one character of a class, a
  greedy or lazy repetition of a class, the word boundary \<^verbatim>\<open>\b\<close>, sequence,
  alternation, a capture group and the greedy repetition \<^verbatim>\<open>(?:...)+\<close> of a group.
  The classes are \<^verbatim>\<open>.\<close> (\<open>Dot\<close>, not a line feed), \<^verbatim>\<open>.\<close> under the flag
  \<^verbatim>\<open>(?s)\<close> (\<open>DotNL\<close>), \<^verbatim>\<open>\s\<close> (\<open>Space\<close>), \<^verbatim>\<open>[^...]\<close> (\<open>NotIn\<close>) and
  \<^verbatim>\<open>[...]\<close> (\<open>OneOf\<close>). A class that admits bytes above 0x7F admits every byte of a
  multi-byte code point, so matching bytes agrees with matching code points.

  The state of a match is the byte before the current offset (for \<^verbatim>\<open>\b\<close>), the
  rest of the input and the captures made so far, latest first.
\<close>

datatype cls = Dot | DotNL | Space | NotIn string | OneOf string

fun cls_mem :: "cls \<Rightarrow> char \<Rightarrow> bool" where
  "cls_mem Dot c = (c \<noteq> CHR 0x0A)"
| "cls_mem DotNL c = True"
| "cls_mem Space c = (c \<in> set [CHR 0x09, CHR 0x0A, CHR 0x0C, CHR 0x0D, CHR 0x20])"
| "cls_mem (NotIn cs) c = (c \<notin> set cs)"
| "cls_mem (OneOf cs) c = (c \<in> set cs)"

datatype re =
    Lit string
  | One cls
  | Star cls
  | Plus cls
  | LazyStar cls
  | WordB
  | Seq re re
  | Alt re re
  | Cap nat re
  | PlusG re

definition cat :: "re list \<Rightarrow> re" where
  "cat rs = foldr Seq rs (Lit [])"

type_synonym mstate = "char option \<times> string \<times> (nat \<times> string) list"
type_synonym cont = "mstate \<Rightarrow> mstate option"

definition orElse :: "'a option \<Rightarrow> 'a option \<Rightarrow> 'a option" where
  "orElse a b = (case a of Some r \<Rightarrow> Some r | None \<Rightarrow> b)"

definition isWordChar :: "char \<Rightarrow> bool" where
  "isWordChar c \<longleftrightarrow> isAlnum c \<or> c = CHR ''_''"

definition wordAfter :: "string \<Rightarrow> bool" where
  "wordAfter s = (case s of [] \<Rightarrow> False | c # _ \<Rightarrow> isWordChar c)"

definition wordBefore :: "char option \<Rightarrow> bool" where
  "wordBefore p = (case p of None \<Rightarrow> False | Some c \<Rightarrow> isWordChar c)"

primrec lastOr :: "char option \<Rightarrow> string \<Rightarrow> char option" where
  "lastOr p [] = p"
| "lastOr p (c # cs) = lastOr (Some c) cs"

primrec starG :: "cls \<Rightarrow> cont \<Rightarrow> (nat \<times> string) list \<Rightarrow> string \<Rightarrow> char option \<Rightarrow> mstate option" where
  "starG c k caps [] p = k (p, [], caps)"
| "starG c k caps (x # xs) p =
     (if cls_mem c x
      then orElse (starG c k caps xs (Some x)) (k (p, x # xs, caps))
      else k (p, x # xs, caps))"

primrec starL :: "cls \<Rightarrow> cont \<Rightarrow> (nat \<times> string) list \<Rightarrow> string \<Rightarrow> char option \<Rightarrow> mstate option" where
  "starL c k caps [] p = k (p, [], caps)"
| "starL c k caps (x # xs) p =
     orElse (k (p, x # xs, caps))
       (if cls_mem c x then starL c k caps xs (Some x) else None)"

text \<open>
  The repetition of a group: after one match of the group that has consumed input,
  another round is tried before the continuation. The first argument bounds the
  number of rounds; \<open>rmatch\<close> passes one more than the length of the input, which no
  sequence of rounds that each consume a byte can reach.
\<close>

primrec plusLoop :: "nat \<Rightarrow> (cont \<Rightarrow> cont) \<Rightarrow> cont \<Rightarrow> cont" where
  "plusLoop 0 mr k st = None"
| "plusLoop (Suc n) mr k st =
     mr (\<lambda>st'. if length (fst (snd st')) < length (fst (snd st))
                then orElse (plusLoop n mr k st') (k st')
                else k st') st"

primrec rmatch :: "re \<Rightarrow> cont \<Rightarrow> cont" where
  "rmatch (Lit w) k st =
     (case st of (p, s, caps) \<Rightarrow>
        (case stripPrefix w s of None \<Rightarrow> None | Some s' \<Rightarrow> k (lastOr p w, s', caps)))"
| "rmatch (One c) k st =
     (case st of (p, s, caps) \<Rightarrow>
        (case s of [] \<Rightarrow> None | x # xs \<Rightarrow> if cls_mem c x then k (Some x, xs, caps) else None))"
| "rmatch (Star c) k st = (case st of (p, s, caps) \<Rightarrow> starG c k caps s p)"
| "rmatch (Plus c) k st =
     (case st of (p, s, caps) \<Rightarrow>
        (case s of [] \<Rightarrow> None
         | x # xs \<Rightarrow> if cls_mem c x then starG c k caps xs (Some x) else None))"
| "rmatch (LazyStar c) k st = (case st of (p, s, caps) \<Rightarrow> starL c k caps s p)"
| "rmatch WordB k st =
     (case st of (p, s, caps) \<Rightarrow> if wordBefore p \<noteq> wordAfter s then k st else None)"
| "rmatch (Seq a b) k st = rmatch a (rmatch b k) st"
| "rmatch (Alt a b) k st = orElse (rmatch a k st) (rmatch b k st)"
| "rmatch (Cap n r) k st =
     rmatch r (\<lambda>st'. case st' of (p', s', caps') \<Rightarrow>
                 k (p', s', (n, take (length (fst (snd st)) - length s') (fst (snd st))) # caps')) st"
| "rmatch (PlusG r) k st = plusLoop (Suc (length (fst (snd st)))) (rmatch r) k st"

text \<open>The match at the current offset: the text matched and the captures.\<close>

definition matchAt :: "re \<Rightarrow> char option \<Rightarrow> string \<Rightarrow> (string \<times> (nat \<times> string) list) option" where
  "matchAt r p s =
     (case rmatch r Some (p, s, []) of
        None \<Rightarrow> None
      | Some (p', s', caps) \<Rightarrow> Some (take (length s - length s') s, caps))"

text \<open>
  The search for all matches cuts the input into the bytes outside matches and the
  successive non-overlapping matches. Every pattern of the program begins with a
  literal, so none matches the empty string; an empty match is passed over.
\<close>

datatype seg = Chr char | Hit string "(nat \<times> string) list"

function scan :: "re \<Rightarrow> char option \<Rightarrow> string \<Rightarrow> seg list" where
  "scan r p [] = []"
| "scan r p (c # cs) =
     (case matchAt r p (c # cs) of
        None \<Rightarrow> Chr c # scan r (Some c) cs
      | Some (mt, caps) \<Rightarrow>
          if mt = [] then Chr c # scan r (Some c) cs
          else Hit mt caps # scan r (lastOr p mt) (drop (length mt) (c # cs)))"
  by pat_completeness auto
termination
  by (relation "measure (\<lambda>(r, p, s). length s)") (auto simp: Suc_le_eq)

text \<open>A capture group that took no part in the match reads as the empty string.\<close>

definition capOf :: "(nat \<times> string) list \<Rightarrow> nat \<Rightarrow> string" where
  "capOf caps n = (case map_of caps n of None \<Rightarrow> [] | Some v \<Rightarrow> v)"

fun hits :: "seg list \<Rightarrow> (string \<times> (nat \<times> string) list) list" where
  "hits [] = []"
| "hits (Chr c # segs) = hits segs"
| "hits (Hit mt caps # segs) = (mt, caps) # hits segs"

text \<open>\<^verbatim>\<open>FindAllStringSubmatch(s, -1)\<close>, \<^verbatim>\<open>FindAllString(s, -1)\<close> and
  \<^verbatim>\<open>FindStringSubmatch(s)\<close> (\<open>None\<close> for Go's \<^verbatim>\<open>nil\<close>).\<close>

definition FindAllStringSubmatch :: "re \<Rightarrow> string \<Rightarrow> (string \<times> (nat \<times> string) list) list" where
  "FindAllStringSubmatch r s = hits (scan r None s)"

definition FindAllString :: "re \<Rightarrow> string \<Rightarrow> string list" where
  "FindAllString r s = map fst (FindAllStringSubmatch r s)"

definition FindStringSubmatch :: "re \<Rightarrow> string \<Rightarrow> (string \<times> (nat \<times> string) list) option" where
  "FindStringSubmatch r s =
     (case FindAllStringSubmatch r s of [] \<Rightarrow> None | m # _ \<Rightarrow> Some m)"

text \<open>\<^verbatim>\<open>FindAllStringSubmatchIndex(s, -1)\<close>, of which the program reads the
  start and end offset of each match.\<close>

fun offsets :: "nat \<Rightarrow> seg list \<Rightarrow> (nat \<times> nat) list" where
  "offsets i [] = []"
| "offsets i (Chr c # segs) = offsets (i + 1) segs"
| "offsets i (Hit mt caps # segs) = (i, i + length mt) # offsets (i + length mt) segs"

definition FindAllStringIndex :: "re \<Rightarrow> string \<Rightarrow> (nat \<times> nat) list" where
  "FindAllStringIndex r s = offsets 0 (scan r None s)"

text \<open>\<^verbatim>\<open>ReplaceAllStringFunc\<close>; with a function of the captures it also serves for
  \<^verbatim>\<open>ReplaceAllString\<close>, whose template is a constant or \<^verbatim>\<open>$1\<close>.\<close>

fun replaceSegs :: "(string \<Rightarrow> (nat \<times> string) list \<Rightarrow> string) \<Rightarrow> seg list \<Rightarrow> string" where
  "replaceSegs f [] = []"
| "replaceSegs f (Chr c # segs) = c # replaceSegs f segs"
| "replaceSegs f (Hit mt caps # segs) = f mt caps @ replaceSegs f segs"

definition ReplaceAll :: "re \<Rightarrow> string \<Rightarrow> (string \<Rightarrow> (nat \<times> string) list \<Rightarrow> string) \<Rightarrow> string" where
  "ReplaceAll r s f = replaceSegs f (scan r None s)"


section \<open>The HTML rewriter\<close>

subsection \<open>YouTube embeds\<close>

definition youtubePattern :: re where
  "youtubePattern =
     cat [Lit ''<div'', Star (NotIn ''>''), Lit ''class=\"'', Star (NotIn ''\"''),
          Lit ''mediatag-thumb youtube-thumb'', Star (NotIn ''\"''), Lit ''\"'',
          Star (NotIn ''>''), Lit ''data-media-id=\"'', Cap 1 (Plus (NotIn ''\"'')), Lit ''\"'',
          Star (NotIn ''>''), Lit ''>'', LazyStar Dot, Lit ''</div>'']"

definition thumbUrlPattern :: re where
  "thumbUrlPattern =
     cat [Lit ''<div'', Star (NotIn ''>''), Lit ''class=\"'', Star (NotIn ''\"''),
          Lit ''mediatag-thumb youtube-thumb'', Star (NotIn ''\"''), Lit ''\"'',
          Star (NotIn ''>''), Lit ''data-thumb-url=\"'', Star (NotIn ''\"''),
          Lit ''youtube.com/vi/'', Cap 1 (Plus (NotIn ''/'')), Lit ''/'',
          Star (NotIn ''\"''), Lit ''\"'', Star (NotIn ''>''), Lit ''>'', LazyStar Dot,
          Lit ''</div>'']"

definition screenStepsEmbed :: "string \<Rightarrow> string" where
  "screenStepsEmbed videoID =
     ''<div class=\"html-embed\">'' @
     ''<iframe width=\"560\" height=\"315\" src=\"https://www.youtube.com/embed/'' @ videoID @
     ''\" title=\"YouTube video player\" frameborder=\"0\" '' @
     ''allow=\"accelerometer; autoplay; clipboard-write; encrypted-media; gyroscope; picture-in-picture; web-share\" '' @
     ''referrerpolicy=\"strict-origin-when-cross-origin\" allowfullscreen></iframe></div>''"

definition convertYouTubeEmbeds :: "string \<Rightarrow> string" where
  "convertYouTubeEmbeds htmlContent =
     (let matches = FindAllStringSubmatch youtubePattern htmlContent;
          h1 = fold (\<lambda>(fullMatch, caps) h.
                  ReplaceFirst h fullMatch (screenStepsEmbed (capOf caps 1))) matches htmlContent;
          thumbMatches = FindAllStringSubmatch thumbUrlPattern h1
      in fold (\<lambda>(fullMatch, caps) h.
                  if Contains fullMatch ''mediatag-thumb''
                  then ReplaceFirst h fullMatch (screenStepsEmbed (capOf caps 1))
                  else h) thumbMatches h1)"

subsection \<open>Paragraph styles\<close>

definition pClassToStyleMap :: "(string \<times> string) list" where
  "pClassToStyleMap = [(''c10'', ''introduction''), (''c44'', ''introduction''), (''c48'', ''info'')]"

definition pTagPattern :: "string \<Rightarrow> re" where
  "pTagPattern pClass =
     cat [Lit ''<p'', Plus Space, Lit ''class=\"'', Star (NotIn ''\"''), WordB, Lit pClass, WordB,
          Star (NotIn ''\"''), Lit ''\"'', LazyStar DotNL, Lit ''</p>'']"

definition groupPattern :: "string \<Rightarrow> re" where
  "groupPattern pClass =
     Cap 1 (PlusG
       (cat [Lit ''<p'', Plus Space, Lit ''class=\"'', Star (NotIn ''\"''), WordB, Lit pClass, WordB,
             Star (NotIn ''\"''), Lit ''\"'', LazyStar DotNL, Lit ''</p>'', Star Space]))"

definition tagContentRegex :: re where
  "tagContentRegex = cat [Lit ''<p'', Star (NotIn ''>''), Lit ''>'', Cap 1 (Star DotNL), Lit ''</p>'']"

definition tagPattern :: re where
  "tagPattern = cat [Lit ''<'', Plus (NotIn ''>''), Lit ''>'']"

definition stripTags :: "string \<Rightarrow> string" where
  "stripTags s = ReplaceAll tagPattern s (\<lambda>mt caps. [])"

text \<open>
  The loop over the paragraphs of a run: the state is the content builder, the
  image-only builder and \<^verbatim>\<open>hasContent\<close>.
\<close>

definition pTagStep :: "string \<Rightarrow> string \<times> string \<times> bool \<Rightarrow> string \<times> string \<times> bool" where
  "pTagStep pTag acc =
     (case acc of (contentBuilder, imageOnlyBuilder, hasContent) \<Rightarrow>
        (case FindStringSubmatch tagContentRegex pTag of
           None \<Rightarrow> acc
         | Some (mt, caps) \<Rightarrow>
             if TrimSpace (stripTags (capOf caps 1)) \<noteq> []
             then (contentBuilder @ pTag, imageOnlyBuilder, True)
             else if Contains pTag ''<img''
             then (contentBuilder, imageOnlyBuilder @ pTag, hasContent)
             else acc))"

definition styledBlock :: "string \<Rightarrow> string \<Rightarrow> string" where
  "styledBlock style content =
     ''<div class=\"screensteps-styled-block\" data-style=\"'' @ style @ ''\">'' @ content @ ''</div>''"

definition groupReplace :: "string \<Rightarrow> string \<Rightarrow> string \<Rightarrow> string" where
  "groupReplace pClass style match =
     (let pTags = FindAllString (pTagPattern pClass) match;
          (contentBuilder, imageOnlyBuilder, hasContent) = fold pTagStep pTags ([], [], False);
          result = (if hasContent then styledBlock style contentBuilder else [])
                     @ (if 0 < length imageOnlyBuilder then imageOnlyBuilder else [])
      in if \<not> hasContent \<and> length imageOnlyBuilder = 0 then [] else result)"

text \<open>
  \<^verbatim>\<open>convertVLPParagraphStyles\<close> ranges over a Go map, and the order in which a
  \<^verbatim>\<open>range\<close> loop visits the entries of a map is not fixed by the language. The
  order of the visit is the parameter \<open>order\<close>, a list of the entries of
  \<open>pClassToStyleMap\<close>.
\<close>

definition convertVLPParagraphStyles :: "(string \<times> string) list \<Rightarrow> string \<Rightarrow> string" where
  "convertVLPParagraphStyles order htmlContent =
     fold (\<lambda>(pClass, style) h.
             ReplaceAll (groupPattern pClass) h (\<lambda>match caps. groupReplace pClass style match))
          order htmlContent"

subsection \<open>Inline spans\<close>

definition spanRegex :: re where
  "spanRegex =
     cat [Lit ''<span'', Plus Space, Lit ''class=\"'', Cap 1 (Plus (NotIn ''\"'')), Lit ''\"'',
          Star (NotIn ''>''), Lit ''>'', Cap 2 (LazyStar Dot), Lit ''</span>'']"

definition classToTagMap :: "string \<rightharpoonup> string" where
  "classToTagMap =
     [''c0'' \<mapsto> ''strong'', ''c3'' \<mapsto> ''strong'', ''c5'' \<mapsto> ''strong'',
      ''c6'' \<mapsto> ''code'', ''c7'' \<mapsto> ''strong'']"

text \<open>The second loop over the classes: the tag of the first class that the table maps.\<close>

fun firstMapped :: "string list \<Rightarrow> string option" where
  "firstMapped [] = None"
| "firstMapped (class # classes) =
     (case classToTagMap class of Some tag \<Rightarrow> Some tag | None \<Rightarrow> firstMapped classes)"

definition replacementTag :: "string list \<Rightarrow> string option" where
  "replacementTag classes =
     (if ''c5'' \<in> set classes then Some ''strong'' else firstMapped classes)"

definition spanReplace :: "string \<Rightarrow> string" where
  "spanReplace match =
     (case FindStringSubmatch spanRegex match of
        None \<Rightarrow> match
      | Some (mt, caps) \<Rightarrow>
          (case replacementTag (Fields (capOf caps 1)) of
             Some tag \<Rightarrow> ''<'' @ tag @ ''>'' @ capOf caps 2 @ ''</'' @ tag @ ''>''
           | None \<Rightarrow> capOf caps 2))"

definition emptySpanPattern :: re where
  "emptySpanPattern = cat [Lit ''<span'', Star (NotIn ''>''), Lit ''>'', Star Space, Lit ''</span>'']"

definition olStartPattern :: re where
  "olStartPattern =
     cat [Cap 1 (cat [Lit ''<ol'', Star (NotIn ''>'')]), Lit '' start=\"'', Star (NotIn ''\"''), Lit ''\"'']"

definition convertVLPFormatting :: "(string \<times> string) list \<Rightarrow> string \<Rightarrow> string" where
  "convertVLPFormatting order htmlContent =
     (if htmlContent = [] then []
      else let h1 = convertYouTubeEmbeds htmlContent;
               h2 = convertVLPParagraphStyles order h1;
               h3 = ReplaceAll spanRegex h2 (\<lambda>match caps. spanReplace match);
               h4 = ReplaceAll emptySpanPattern h3 (\<lambda>match caps. []);
               h5 = ReplaceAll olStartPattern h4 (\<lambda>match caps. capOf caps 1)
           in h5)"

subsection \<open>The cleaner\<close>

definition srcPattern :: re where
  "srcPattern = cat [Lit ''src='', One (OneOf [CHR 0x22, CHR 0x27]), Lit ''./'']"

definition cleanHTML :: "entityTables \<Rightarrow> (string \<times> string) list \<Rightarrow> string \<Rightarrow> string" where
  "cleanHTML tabs order htmlContent =
     (if htmlContent = [] then []
      else let h1 = UnescapeString tabs htmlContent;
               h2 = UnescapeString tabs h1;
               h3 = convertVLPFormatting order h2;
               h4 = ReplaceAll srcPattern h3 (\<lambda>match caps. ''src=\"'')
           in TrimSpace h4)"


section \<open>VLP source model and ScreenSteps target model\<close>

text \<open>
  The structs of \<^verbatim>\<open>main.go\<close>. A Go pointer field that may be \<^verbatim>\<open>nil\<close>
  (\<^verbatim>\<open>*Children\<close>, \<^verbatim>\<open>*Localizations\<close>, \<^verbatim>\<open>*Images\<close>) is an \<open>option\<close>;
  the one-field wrapper structs \<^verbatim>\<open>Children\<close>, \<^verbatim>\<open>Localizations\<close> and
  \<^verbatim>\<open>Images\<close> are identified with their field. Go's \<^verbatim>\<open>int\<close> is 64 bits wide; the
  only integers computed here are counters bounded by the number of nodes held in
  memory, so they are modelled as \<open>int\<close>. Strings are byte strings.
\<close>

record Image =
  Src :: string
  Filename :: string
  Width :: string
  Height :: string

record LocaleContent =
  lc_ID :: string
  lc_Title :: string
  LanguageCode :: string
  Content :: string
  Images :: "Image list option"

datatype ContentNode =
  ContentNode (cn_ID: string) (cn_Title: string) (OrderIndex: int)
    (Children: "ContentNode list option") (Localizations: "LocaleContent option")

record Manual =
  m_ID :: string
  Name :: string
  DefaultLanguageCode :: string
  DataFormat :: string
  ContentNodes :: "ContentNode list"

record SSStep =
  st_ID :: string
  st_Title :: string
  st_Order :: int
  st_Content :: string
  st_Images :: "Image list"

record SSArticle =
  ar_ID :: string
  ar_Title :: string
  Position :: int
  VLPOrder :: int
  Steps :: "SSStep list"

record SSChapter =
  ch_ID :: string
  ch_Title :: string
  ch_Order :: int
  Description :: string
  Articles :: "SSArticle list"


section \<open>Structure flattener\<close>

definition getNodeContent :: "ContentNode \<Rightarrow> string" where
  "getNodeContent node =
     (case Localizations node of Some l \<Rightarrow> Content l | None \<Rightarrow> [])"

definition getNodeImages :: "ContentNode \<Rightarrow> Image list" where
  "getNodeImages node =
     (case Localizations node of
        Some l \<Rightarrow> (case Images l of Some imgs \<Rightarrow> imgs | None \<Rightarrow> [])
      | None \<Rightarrow> [])"

text \<open>
  \<^verbatim>\<open>flattenStructure\<close>. The HTML rewriter \<^verbatim>\<open>c.cleanHTML\<close> is the parameter
  \<open>clean\<close>: the flattener applies it to one node's body at a time and nothing else
  of the flattener depends on it. The progress counters of the logger, which the
  function also updates, do not flow into the returned chapters and are left out.

  \<open>stepsOf\<close> is the body of the loop over articles from the comment
  \<^verbatim>\<open>// Process level 3 children as steps\<close> on; \<open>flattenArticles\<close> is that loop,
  with the local counter \<^verbatim>\<open>position\<close> as an argument; \<open>flattenChapters\<close> is the
  outer loop with the index \<^verbatim>\<open>idx\<close> as an argument.
\<close>

definition stepOfNode :: "(string \<Rightarrow> string) \<Rightarrow> ContentNode \<Rightarrow> SSStep" where
  "stepOfNode clean stepNode =
     \<lparr> st_ID = cn_ID stepNode, st_Title = cn_Title stepNode,
       st_Order = OrderIndex stepNode,
       st_Content = clean (getNodeContent stepNode),
       st_Images = getNodeImages stepNode \<rparr>"

definition syntheticStep :: "(string \<Rightarrow> string) \<Rightarrow> ContentNode \<Rightarrow> SSStep" where
  "syntheticStep clean articleNode =
     \<lparr> st_ID = cn_ID articleNode, st_Title = cn_Title articleNode,
       st_Order = 0,
       st_Content = clean (getNodeContent articleNode),
       st_Images = getNodeImages articleNode \<rparr>"

definition hasChildren :: "ContentNode \<Rightarrow> bool" where
  "hasChildren node =
     (case Children node of None \<Rightarrow> False | Some ns \<Rightarrow> 0 < length ns)"

definition stepsOf :: "(string \<Rightarrow> string) \<Rightarrow> ContentNode \<Rightarrow> SSStep list" where
  "stepsOf clean articleNode =
     (if hasChildren articleNode
      then map (stepOfNode clean) (the (Children articleNode))
      else [syntheticStep clean articleNode])"

definition articleOf :: "(string \<Rightarrow> string) \<Rightarrow> int \<Rightarrow> ContentNode \<Rightarrow> SSArticle" where
  "articleOf clean position articleNode =
     \<lparr> ar_ID = cn_ID articleNode, ar_Title = cn_Title articleNode,
       Position = position, VLPOrder = OrderIndex articleNode,
       Steps = stepsOf clean articleNode \<rparr>"

fun flattenArticles :: "(string \<Rightarrow> string) \<Rightarrow> int \<Rightarrow> ContentNode list \<Rightarrow> SSArticle list" where
  "flattenArticles clean position [] = []"
| "flattenArticles clean position (articleNode # rest) =
     articleOf clean position articleNode # flattenArticles clean (position + 1) rest"

definition chapterOf :: "(string \<Rightarrow> string) \<Rightarrow> ContentNode \<Rightarrow> SSChapter" where
  "chapterOf clean chapterNode =
     \<lparr> ch_ID = cn_ID chapterNode, ch_Title = cn_Title chapterNode,
       ch_Order = OrderIndex chapterNode,
       Description = clean (getNodeContent chapterNode),
       Articles = (case Children chapterNode of
                     None \<Rightarrow> []
                   | Some articleNodes \<Rightarrow> flattenArticles clean 1 articleNodes) \<rparr>"

fun flattenChapters :: "(string \<Rightarrow> string) \<Rightarrow> nat \<Rightarrow> ContentNode list \<Rightarrow> SSChapter list" where
  "flattenChapters clean idx [] = []"
| "flattenChapters clean idx (chapterNode # rest) =
     (if idx = 0 \<and> \<not> hasChildren chapterNode
      then flattenChapters clean (idx + 1) rest
      else chapterOf clean chapterNode # flattenChapters clean (idx + 1) rest)"

definition flattenStructure :: "(string \<Rightarrow> string) \<Rightarrow> Manual \<Rightarrow> SSChapter list" where
  "flattenStructure clean manual = flattenChapters clean 0 (ContentNodes manual)"

text \<open>The source's own order field of a node replaced by another value.\<close>

definition withOrder :: "ContentNode \<Rightarrow> int \<Rightarrow> ContentNode" where
  "withOrder node k =
     ContentNode (cn_ID node) (cn_Title node) k (Children node) (Localizations node)"

text \<open>
  What the properties of the flattener speak of. \<open>childNodes\<close>: the child nodes of
  a node, none if it has no list of children. \<open>chapterNodes\<close>: the top-level nodes
  of a manual that become chapters, which are all of them but for a first node
  without children (it holds the manual's title). \<open>reorderManual g\<close>: the manual
  with other values in the order fields of its article nodes, \<open>g i j\<close> for the
  \<open>j\<close>-th child of the \<open>i\<close>-th top-level node. \<open>sansOrder\<close>: a chapter of the
  output with \<open>VLPOrder\<close> blanked in its articles.
\<close>

definition childNodes :: "ContentNode \<Rightarrow> ContentNode list" where
  "childNodes node = (case Children node of None \<Rightarrow> [] | Some ns \<Rightarrow> ns)"

definition chapterNodes :: "Manual \<Rightarrow> ContentNode list" where
  "chapterNodes manual =
     (case ContentNodes manual of
        [] \<Rightarrow> []
      | n # ns \<Rightarrow> if childNodes n = [] then ns else n # ns)"

definition setOrders :: "(nat \<Rightarrow> int) \<Rightarrow> ContentNode list \<Rightarrow> ContentNode list" where
  "setOrders h ns = map (\<lambda>(j, n). withOrder n (h j)) (enumerate 0 ns)"

definition reorderNode :: "(nat \<Rightarrow> int) \<Rightarrow> ContentNode \<Rightarrow> ContentNode" where
  "reorderNode h n =
     ContentNode (cn_ID n) (cn_Title n) (OrderIndex n) (map_option (setOrders h) (Children n))
       (Localizations n)"

definition reorderManual :: "(nat \<Rightarrow> nat \<Rightarrow> int) \<Rightarrow> Manual \<Rightarrow> Manual" where
  "reorderManual g manual =
     manual\<lparr>ContentNodes :=
       map (\<lambda>(i, n). reorderNode (g i) n) (enumerate 0 (ContentNodes manual))\<rparr>"

definition sansOrder :: "SSChapter \<Rightarrow> SSChapter" where
  "sansOrder chapter = chapter\<lparr>Articles := map (\<lambda>a. a\<lparr>VLPOrder := 0\<rparr>) (Articles chapter)\<rparr>"

definition sampleArticleNode :: ContentNode where
  "sampleArticleNode =
     ContentNode ''a1'' ''Intro'' 7 None
       (Some \<lparr> lc_ID = ''l1'', lc_Title = ''Intro'', LanguageCode = ''en'',
               Content = ''<p>Hi</p>'',
               Images = Some [\<lparr> Src = ''images/x.png'', Filename = ''x.png'',
                                Width = ''10'', Height = ''20'' \<rparr>] \<rparr>)"

definition sampleStepNode :: ContentNode where
  "sampleStepNode = ContentNode ''s1'' ''Step one'' 3 None None"

definition sampleManual :: Manual where
  "sampleManual =
     \<lparr> m_ID = ''m1'', Name = ''Lab'', DefaultLanguageCode = ''en'', DataFormat = ''HTML'',
       ContentNodes =
         [ContentNode ''t0'' ''Lab'' 0 None None,
          ContentNode ''c1'' ''Chapter'' 5
            (Some [sampleArticleNode,
                   ContentNode ''a2'' ''Second'' 2 (Some [sampleStepNode, sampleStepNode]) None])
            None] \<rparr>"



section \<open>The uploader's content blocks\<close>

text \<open>
  The part of \<^verbatim>\<open>UploadToScreenSteps\<close> that turns the steps of an article into
  content blocks. A block is a Go map from field names to values; the record has the
  fields that the blocks of the three types carry, except those that are the same
  constant in every block of a type and \<^verbatim>\<open>anchor_name\<close>. A style of \<^verbatim>\<open>nil\<close> is
  \<open>None\<close>.
\<close>

datatype blockType = StepContent | TextContent | ImageContentBlock

record ContentBlock =
  uuid :: string
  btype :: blockType
  title :: string
  body :: string
  depth :: int
  sort_order :: int
  content_block_ids :: "string list"
  style :: "string option"
  asset_file_name :: string
  image_asset_id :: int
  width :: int
  height :: int
  url :: string

record SkippedImage =
  ImagePath :: string
  ChapterTitle :: string
  ArticleTitle :: string
  StepTitle :: string

text \<open>
  What the world outside gives: the identifiers that \<^verbatim>\<open>generateUUID\<close> draws (the
  n-th draw of the run), whether \<^verbatim>\<open>os.Stat\<close> finds a file, what the n-th call of
  \<^verbatim>\<open>api.UploadImage\<close> returns, and \<^verbatim>\<open>filepath.Join\<close>. An upload returns an
  error or the decoded JSON object of the answer; of that object the program reads the
  field \<^verbatim>\<open>file\<close> and in it \<^verbatim>\<open>id\<close>, \<^verbatim>\<open>width\<close>, \<^verbatim>\<open>height\<close> and
  \<^verbatim>\<open>url\<close>, each of which may be absent or of another type (\<open>None\<close>). The numbers
  are taken as the integers that the conversion \<^verbatim>\<open>int(...)\<close> gives.
\<close>

record fileData =
  fd_id :: "int option"
  fd_width :: "int option"
  fd_height :: "int option"
  fd_url :: "string option"

datatype uploadResult = UploadError | UploadOK "fileData option"

record world =
  uuidOf :: "nat \<Rightarrow> string"
  fileExists :: "string \<Rightarrow> bool"
  uploadImage :: "nat \<Rightarrow> string \<Rightarrow> uploadResult"
  createArticle :: "nat \<Rightarrow> string \<Rightarrow> bool"
  updateArticleContents :: "nat \<Rightarrow> string \<Rightarrow> ContentBlock list \<Rightarrow> bool"
  pathJoin :: "string list \<Rightarrow> string"

text \<open>
  The variables of the run that the loops update: the block list and the sort order
  of the article at hand, the skipped images, the count of uploaded images, the
  number of identifiers drawn and the number of API calls made.
\<close>

record ustate =
  contentBlocks :: "ContentBlock list"
  sortOrder :: int
  skippedImages :: "SkippedImage list"
  uploadedImagesCount :: int
  drawn :: nat
  calls :: nat

text \<open>A type assertion without the \<^verbatim>\<open>ok\<close> result panics when it fails.\<close>

datatype abort = TypeAssertionPanic

record place =
  contentDir :: string
  chapterTitle :: string
  articleID :: string
  articleTitle :: string
  stepTitle :: string

definition newBlock :: "string \<Rightarrow> blockType \<Rightarrow> int \<Rightarrow> int \<Rightarrow> ContentBlock" where
  "newBlock u t d so =
     \<lparr> uuid = u, btype = t, title = [], body = [], depth = d, sort_order = so,
       content_block_ids = [], style = None, asset_file_name = [], image_asset_id = 0,
       width = 0, height = 0, url = [] \<rparr>"

text \<open>
  \<open>emit\<close> is what every branch that creates a body block does: it draws an
  identifier, appends the block with the current sort order, appends the identifier
  to the child list of the step block, and increments the sort order. The step block
  is a Go map, which the block list and the variable \<^verbatim>\<open>stepBlock\<close> share: the
  update of its child list is an update of the entry of the block list at the index
  \<open>si\<close> where the step block was appended.
\<close>

definition emit :: "world \<Rightarrow> nat \<Rightarrow> (ContentBlock \<Rightarrow> ContentBlock) \<Rightarrow> blockType \<Rightarrow> ustate \<Rightarrow> ustate" where
  "emit w si fill t st =
     (let u = uuidOf w (drawn st);
          blk = fill (newBlock u t 1 (sortOrder st));
          blocks = contentBlocks st @ [blk];
          stepBlock = blocks ! si
      in st\<lparr> contentBlocks :=
                blocks[si := stepBlock\<lparr>content_block_ids := content_block_ids stepBlock @ [u]\<rparr>],
              sortOrder := sortOrder st + 1,
              drawn := drawn st + 1 \<rparr>)"

definition blockRegex :: re where
  "blockRegex =
     Cap 1 (Alt (cat [Lit ''<div class=\"html-embed\">'', LazyStar DotNL, Lit ''</div>''])
           (Alt (cat [Lit ''<div class=\"screensteps-styled-block\"'', Star (NotIn ''>''), Lit ''>'',
                      LazyStar DotNL, Lit ''</div>''])
                (cat [Lit ''<img'', Plus (NotIn ''>''), Lit ''src=\"'', Plus (NotIn ''\"''), Lit ''\"'',
                      Star (NotIn ''>''), Lit ''>''])))"

definition imgTagRegex :: re where
  "imgTagRegex =
     cat [Lit ''<img'', Plus (NotIn ''>''), Lit ''src=\"'', Cap 1 (Plus (NotIn ''\"'')), Lit ''\"'',
          Star (NotIn ''>''), Lit ''>'']"

definition styledBlockRegex :: re where
  "styledBlockRegex =
     cat [Lit ''<div class=\"screensteps-styled-block\"'', Star (NotIn ''>''), Lit ''data-style=\"'',
          Cap 1 (Plus (NotIn ''\"'')), Lit ''\"'', Star (NotIn ''>''), Lit ''>'',
          Cap 2 (LazyStar Dot), Lit ''</div>'']"

text \<open>The slice \<^verbatim>\<open>s[a:b]\<close>.\<close>

definition slice :: "string \<Rightarrow> nat \<Rightarrow> nat \<Rightarrow> string" where
  "slice s a b = take (b - a) (drop a s)"

definition isBlank :: "string \<Rightarrow> bool" where
  "isBlank s = (TrimSpace (stripTags s) = [])"

text \<open>A run of text outside the special blocks: a block only if it has visible text.\<close>

definition textBlock :: "world \<Rightarrow> nat \<Rightarrow> string \<Rightarrow> ustate \<Rightarrow> ustate" where
  "textBlock w si txt st =
     (if isBlank txt then st
      else emit w si (\<lambda>b. b\<lparr>body := txt\<rparr>) TextContent st)"

definition skip :: "place \<Rightarrow> string \<Rightarrow> ustate \<Rightarrow> ustate" where
  "skip ctx imagePath st =
     st\<lparr> skippedImages := skippedImages st @
            [\<lparr> ImagePath = imagePath, ChapterTitle = chapterTitle ctx,
               ArticleTitle = articleTitle ctx, StepTitle = stepTitle ctx \<rparr>] \<rparr>"

text \<open>
  The branch of an image tag: the file name that the tag's source names (the query
  string dropped, the last path element kept) and the path under the article's image
  directory.
\<close>

definition imageFile :: "entityTables \<Rightarrow> string \<Rightarrow> string option" where
  "imageFile tabs blockHTML =
     (case FindStringSubmatch imgTagRegex blockHTML of
        None \<Rightarrow> None
      | Some (mt, caps) \<Rightarrow>
          let src = UnescapeString tabs (capOf caps 1);
              srcPath = (case Index src ''?'' of None \<Rightarrow> src | Some idx \<Rightarrow> take idx src)
          in Some (Base srcPath))"

definition imagePathOf :: "world \<Rightarrow> place \<Rightarrow> string \<Rightarrow> string" where
  "imagePathOf w ctx filename =
     pathJoin w [pathJoin w [contentDir ctx, ''images'', articleID ctx], filename]"

definition imageBlock :: "entityTables \<Rightarrow> world \<Rightarrow> place \<Rightarrow> nat \<Rightarrow> string \<Rightarrow> ustate \<Rightarrow> abort + ustate" where
  "imageBlock tabs w ctx si blockHTML st =
     (case imageFile tabs blockHTML of
        None \<Rightarrow> Inr st
      | Some filename \<Rightarrow>
          let imagePath = imagePathOf w ctx filename
          in if fileExists w imagePath
             then (case uploadImage w (calls st) imagePath of
                     UploadError \<Rightarrow> Inr (skip ctx imagePath (st\<lparr>calls := calls st + 1\<rparr>))
                   | UploadOK None \<Rightarrow> Inr (st\<lparr>calls := calls st + 1\<rparr>)
                   | UploadOK (Some fd) \<Rightarrow>
                       (case fd_id fd of
                          None \<Rightarrow> Inr (st\<lparr>calls := calls st + 1\<rparr>)
                        | Some imageAssetID \<Rightarrow>
                            (case (fd_width fd, fd_height fd, fd_url fd) of
                               (Some wd, Some ht, Some ur) \<Rightarrow>
                                 let st1 = emit w si
                                       (\<lambda>b. b\<lparr>asset_file_name := filename,
                                               image_asset_id := imageAssetID,
                                               width := wd, height := ht, url := ur\<rparr>)
                                       ImageContentBlock (st\<lparr>calls := calls st + 1\<rparr>)
                                 in Inr (st1\<lparr>uploadedImagesCount := uploadedImagesCount st1 + 1\<rparr>)
                             | _ \<Rightarrow> Inl TypeAssertionPanic)))
             else Inr (skip ctx imagePath st))"

text \<open>The special block itself, by its prefix.\<close>

definition specialBlock :: "entityTables \<Rightarrow> world \<Rightarrow> place \<Rightarrow> nat \<Rightarrow> string \<Rightarrow> ustate \<Rightarrow> abort + ustate" where
  "specialBlock tabs w ctx si blockHTML st =
     (if HasPrefix blockHTML ''<img'' then imageBlock tabs w ctx si blockHTML st
      else if HasPrefix blockHTML ''<div class=\"html-embed\"''
        then Inr (emit w si (\<lambda>b. b\<lparr>body := blockHTML, style := Some ''html-embed''\<rparr>) TextContent st)
      else if HasPrefix blockHTML ''<div class=\"screensteps-styled-block\"''
        then (case FindStringSubmatch styledBlockRegex blockHTML of
                None \<Rightarrow> Inr st
              | Some (mt, caps) \<Rightarrow>
                  Inr (emit w si (\<lambda>b. b\<lparr>body := capOf caps 2, style := Some (capOf caps 1)\<rparr>)
                         TextContent st))
      else Inr st)"

text \<open>
  The loop over the matches of \<open>blockRegex\<close>, with \<^verbatim>\<open>lastIndex\<close> as an argument,
  followed by the text after the last match.
\<close>

fun blockLoop :: "entityTables \<Rightarrow> world \<Rightarrow> place \<Rightarrow> nat \<Rightarrow> string \<Rightarrow> nat \<Rightarrow> (nat \<times> nat) list
                    \<Rightarrow> ustate \<Rightarrow> abort + ustate" where
  "blockLoop tabs w ctx si content lastIndex [] st =
     Inr (textBlock w si (drop lastIndex content) st)"
| "blockLoop tabs w ctx si content lastIndex ((start, stop) # indexes) st =
     (case specialBlock tabs w ctx si (slice content start stop)
             (textBlock w si (slice content lastIndex start) st) of
        Inl a \<Rightarrow> Inl a
      | Inr st' \<Rightarrow> blockLoop tabs w ctx si content stop indexes st')"

text \<open>One step: the step block first, then the blocks of its content.\<close>

definition stepBlocks :: "entityTables \<Rightarrow> world \<Rightarrow> place \<Rightarrow> SSStep \<Rightarrow> ustate \<Rightarrow> abort + ustate" where
  "stepBlocks tabs w ctx0 step st =
     (let ctx = ctx0\<lparr>stepTitle := st_Title step\<rparr>;
          stepUUID = uuidOf w (drawn st);
          stepBlock = (newBlock stepUUID StepContent 0 (sortOrder st))\<lparr>title := st_Title step\<rparr>;
          si = length (contentBlocks st);
          st1 = st\<lparr> contentBlocks := contentBlocks st @ [stepBlock],
                    sortOrder := sortOrder st + 1, drawn := drawn st + 1 \<rparr>
      in blockLoop tabs w ctx si (st_Content step) 0
           (FindAllStringIndex blockRegex (st_Content step)) st1)"

fun stepsLoop :: "entityTables \<Rightarrow> world \<Rightarrow> place \<Rightarrow> SSStep list \<Rightarrow> ustate \<Rightarrow> abort + ustate" where
  "stepsLoop tabs w ctx [] st = Inr st"
| "stepsLoop tabs w ctx (step # steps) st =
     (case stepBlocks tabs w ctx step st of
        Inl a \<Rightarrow> Inl a
      | Inr st' \<Rightarrow> stepsLoop tabs w ctx steps st')"

text \<open>The content blocks of one article: an empty list and sort order 1 to begin with.\<close>

definition articleBlocks :: "entityTables \<Rightarrow> world \<Rightarrow> string \<Rightarrow> string \<Rightarrow> SSArticle \<Rightarrow> ustate \<Rightarrow> abort + ustate" where
  "articleBlocks tabs w dir chTitle article st =
     stepsLoop tabs w
       \<lparr> contentDir = dir, chapterTitle = chTitle, articleID = ar_ID article,
         articleTitle = ar_Title article, stepTitle = [] \<rparr>
       (Steps article) (st\<lparr>contentBlocks := [], sortOrder := 1\<rparr>)"



text \<open>
  The summary of skipped images at the end of the run groups the entries in a Go map
  by chapter title, and those of a chapter in another map by article title, and
  prints the groups as a \<^verbatim>\<open>range\<close> loop over each map visits them. \<open>visit\<close> is
  that order: it arranges the keys of a map. The entries come out in the order
  \<open>reported\<close>.
\<close>

definition groupsBy :: "(string list \<Rightarrow> string list) \<Rightarrow> (SkippedImage \<Rightarrow> string) \<Rightarrow> SkippedImage list
                          \<Rightarrow> (string \<times> SkippedImage list) list" where
  "groupsBy visit key imgs =
     map (\<lambda>k. (k, filter (\<lambda>img. key img = k) imgs)) (visit (remdups (map key imgs)))"

definition summary :: "(string list \<Rightarrow> string list) \<Rightarrow> SkippedImage list
                         \<Rightarrow> (string \<times> (string \<times> SkippedImage list) list) list" where
  "summary visit imgs =
     map (\<lambda>(chapterTitle, images). (chapterTitle, groupsBy visit ArticleTitle images))
       (groupsBy visit ChapterTitle imgs)"

definition reported :: "(string list \<Rightarrow> string list) \<Rightarrow> SkippedImage list \<Rightarrow> SkippedImage list" where
  "reported visit imgs = concat (map (\<lambda>(c, groups). concat (map snd groups)) (summary visit imgs))"

definition initState :: ustate where
  "initState = \<lparr> contentBlocks = [], sortOrder = 1, skippedImages = [],
                 uploadedImagesCount = 0, drawn = 0, calls = 0 \<rparr>"

definition sampleWorld :: world where
  "sampleWorld =
     \<lparr> uuidOf = (\<lambda>n. ''u'' @ replicate n CHR ''i''),
       fileExists = (\<lambda>p. p = ''out/images/a1/x.png''),
       uploadImage = (\<lambda>n p. UploadOK (Some \<lparr> fd_id = Some 7, fd_width = Some 10,
                                             fd_height = Some 20, fd_url = Some ''http://x'' \<rparr>)),
       createArticle = (\<lambda>n t. True),
       updateArticleContents = (\<lambda>n t bs. True),
       pathJoin = (\<lambda>es. foldr (\<lambda>e r. if r = [] then e else e @ ''/'' @ r) es []) \<rparr>"

definition sampleArticle :: SSArticle where
  "sampleArticle =
     \<lparr> ar_ID = ''a1'', ar_Title = ''Intro'', Position = 1, VLPOrder = 7,
       Steps = [\<lparr> st_ID = ''s1'', st_Title = ''One'', st_Order = 0,
                  st_Content = ''<p>Hi</p><img src=\"x.png?v=1\"> there <img alt=\"\" src=\"images/y.png\"><div class=\"screensteps-styled-block\" data-style=\"info\"><p>n</p></div>'',
                  st_Images = [] \<rparr>,
                \<lparr> st_ID = ''s2'', st_Title = ''Two'', st_Order = 1,
                  st_Content = ''bye'', st_Images = [] \<rparr>] \<rparr>"



subsection \<open>Properties of a block list\<close>

text \<open>
  The sort orders of a block list are 1, 2, ... in list order. \<open>refsLater\<close>: every
  identifier in a child list is the identifier of a block further down the list.
  \<open>refsEarlierOrSame\<close>: every identifier in the child list of a step block is the
  identifier of a block at the same position or further up. \<open>blocksInv\<close> is what
  the loops maintain; \<open>keepsKeys\<close> says of a function that fills in a new block that
  it leaves identifier, sort order and child list alone.
\<close>

definition sortOrdersOK :: "ContentBlock list \<Rightarrow> bool" where
  "sortOrdersOK bs = (map sort_order bs = map (\<lambda>i. 1 + int i) [0..<length bs])"

definition refsLater :: "ContentBlock list \<Rightarrow> bool" where
  "refsLater bs =
     (\<forall>i \<in> {0..<length bs}. \<forall>c \<in> set (content_block_ids (bs ! i)).
        \<exists>j \<in> {i + 1..<length bs}. uuid (bs ! j) = c)"

definition refsEarlierOrSame :: "ContentBlock list \<Rightarrow> bool" where
  "refsEarlierOrSame bs =
     (\<forall>i \<in> {0..<length bs}. btype (bs ! i) = StepContent \<longrightarrow>
        (\<forall>c \<in> set (content_block_ids (bs ! i)). \<exists>j \<in> {0..<i + 1}. uuid (bs ! j) = c))"

definition blocksInv :: "ustate \<Rightarrow> bool" where
  "blocksInv st \<longleftrightarrow>
     sortOrder st = 1 + int (length (contentBlocks st))
     \<and> sortOrdersOK (contentBlocks st) \<and> refsLater (contentBlocks st)"

definition keepsKeys :: "(ContentBlock \<Rightarrow> ContentBlock) \<Rightarrow> bool" where
  "keepsKeys fill \<longleftrightarrow>
     (\<forall>b. uuid (fill b) = uuid b \<and> sort_order (fill b) = sort_order b
          \<and> content_block_ids (fill b) = content_block_ids b)"

definition stepInv :: "nat \<Rightarrow> ustate \<Rightarrow> bool" where
  "stepInv si st \<longleftrightarrow> blocksInv st \<and> si < length (contentBlocks st)"

definition tinyArticle :: SSArticle where
  "tinyArticle =
     \<lparr> ar_ID = ''a2'', ar_Title = ''Short'', Position = 2, VLPOrder = 0,
       Steps = [\<lparr> st_ID = ''s1'', st_Title = ''Only'', st_Order = 0,
                  st_Content = ''bye'', st_Images = [] \<rparr>] \<rparr>"

text \<open>The block list that the uploader builds for an article, empty if it panics.\<close>

definition blocksOf :: "entityTables \<Rightarrow> world \<Rightarrow> string \<Rightarrow> string \<Rightarrow> SSArticle \<Rightarrow> ContentBlock list" where
  "blocksOf tabs w dir chTitle article =
     (case articleBlocks tabs w dir chTitle article initState of
        Inl a \<Rightarrow> []
      | Inr st \<Rightarrow> contentBlocks st)"


subsection \<open>Properties of the run\<close>


















subsection \<open>The order of the map visit\<close>

text \<open>Two of the orders in which the three entries of the style map can be visited.\<close>

definition orderA :: "(string \<times> string) list" where
  "orderA = [(''c10'', ''introduction''), (''c44'', ''introduction''), (''c48'', ''info'')]"

definition orderB :: "(string \<times> string) list" where
  "orderB = [(''c48'', ''info''), (''c44'', ''introduction''), (''c10'', ''introduction'')]"


subsection \<open>Patterns, quiet text and documents of spans\<close>

text \<open>
  \<open>heads x r\<close>: the pattern \<open>r\<close> matches no input that does not begin with the byte
  \<open>x\<close>. \<open>needsPrefix w r\<close>: it matches no input that does not begin with \<open>w\<close>.
  \<open>quiet r x\<close>: no match of \<open>r\<close> begins inside the text \<open>x\<close>, whatever follows
  it. \<open>deaf r t\<close>: no match of \<open>r\<close> begins at the tag with the body \<open>t\<close>.
\<close>

definition heads :: "char \<Rightarrow> re \<Rightarrow> bool" where
  "heads x r \<longleftrightarrow> (\<forall>k p s caps. (s = [] \<or> hd s \<noteq> x) \<longrightarrow> rmatch r k (p, s, caps) = None)"

definition needsPrefix :: "string \<Rightarrow> re \<Rightarrow> bool" where
  "needsPrefix w r \<longleftrightarrow> (\<forall>k p s caps. stripPrefix w s = None \<longrightarrow> rmatch r k (p, s, caps) = None)"

definition quiet :: "re \<Rightarrow> string \<Rightarrow> bool" where
  "quiet r x \<longleftrightarrow> (\<forall>u v rest p. x = u @ v \<longrightarrow> v \<noteq> [] \<longrightarrow> matchAt r p (v @ rest) = None)"

definition deaf :: "re \<Rightarrow> string \<Rightarrow> bool" where
  "deaf r t \<longleftrightarrow> (\<forall>rest p. matchAt r p (CHR ''<'' # t @ CHR ''>'' # rest) = None)"



text \<open>
  A tag body (the text between \<^verbatim>\<open><\<close> and \<^verbatim>\<open>>\<close>) that none of the passes of the
  rewriter looks for: not a span tag, not a \<^verbatim>\<open>div\<close> or \<^verbatim>\<open>p\<close> tag with a class
  attribute, not an \<^verbatim>\<open>ol\<close> tag with a start attribute.
\<close>

definition neutral :: "string \<Rightarrow> bool" where
  "neutral t \<longleftrightarrow>
     \<not> HasPrefix t ''span'' \<and> \<not> HasPrefix t ''/span''
     \<and> (HasPrefix t ''div'' \<or> HasPrefix t ''p'' \<longrightarrow> \<not> Contains t ''class=\"'')
     \<and> (HasPrefix t ''ol'' \<longrightarrow> \<not> Contains t '' start=\"'')"















section \<open>Properties of the flattener\<close>

lemma hasChildren_childNodes: "hasChildren n = (childNodes n \<noteq> [])"
  by (cases "Children n") (simp_all add: hasChildren_def childNodes_def)

lemma flattenArticles_nth:
  "j < length ns \<Longrightarrow> flattenArticles clean p ns ! j = articleOf clean (p + int j) (ns ! j)"
proof (induction ns arbitrary: p j)
  case Nil
  then show ?case by simp
next
  case (Cons n ns)
  show ?case
  proof (cases j)
    case 0
    then show ?thesis by simp
  next
    case (Suc j')
    with Cons.prems have "j' < length ns" by simp
    from Cons.IH [OF this, of "p + 1"] show ?thesis by (simp add: Suc add.assoc)
  qed
qed

lemma flattenArticles_length:
  "length (flattenArticles clean p ns) = length ns"
  by (induction ns arbitrary: p) simp_all

lemma flattenArticles_all2:
  assumes "\<And>p n. P n (articleOf clean p n)"
  shows "list_all2 P ns (flattenArticles clean p ns)"
  by (induction ns arbitrary: p) (simp_all add: assms)

lemma chapterOf_all2:
  assumes "\<And>p n. P n (articleOf clean p n)"
  shows "list_all2 P (childNodes n) (Articles (chapterOf clean n))"
  by (cases "Children n") (simp_all add: chapterOf_def childNodes_def flattenArticles_all2 assms)

lemma flattenChapters_Suc:
  "flattenChapters clean (Suc i) ns = map (chapterOf clean) ns"
  by (induction ns arbitrary: i) simp_all

lemma flattenStructure_map:
  "flattenStructure clean manual = map (chapterOf clean) (chapterNodes manual)"
  by (cases "ContentNodes manual")
     (simp_all add: flattenStructure_def chapterNodes_def hasChildren_childNodes flattenChapters_Suc)

lemma flattenStructure_all2:
  assumes "\<And>n. Q n (chapterOf clean n)"
  shows "list_all2 Q (chapterNodes manual) (flattenStructure clean manual)"
  unfolding flattenStructure_map by (simp add: list_all2_map2 list_all2_same assms)

lemma stepsOf_cases:
  "stepsOf clean n =
     (if childNodes n = []
      then [\<lparr> st_ID = cn_ID n, st_Title = cn_Title n, st_Order = 0,
               st_Content = clean (case Localizations n of None \<Rightarrow> [] | Some l \<Rightarrow> Content l),
               st_Images = (case Localizations n of
                              None \<Rightarrow> []
                            | Some l \<Rightarrow> (case Images l of None \<Rightarrow> [] | Some imgs \<Rightarrow> imgs)) \<rparr>]
      else map (\<lambda>c. \<lparr> st_ID = cn_ID c, st_Title = cn_Title c, st_Order = OrderIndex c,
               st_Content = clean (case Localizations c of None \<Rightarrow> [] | Some l \<Rightarrow> Content l),
               st_Images = (case Localizations c of
                              None \<Rightarrow> []
                            | Some l \<Rightarrow> (case Images l of None \<Rightarrow> [] | Some imgs \<Rightarrow> imgs)) \<rparr>)
             (childNodes n))"
proof (cases "Children n")
  case None
  then show ?thesis
    by (simp add: stepsOf_def hasChildren_def childNodes_def syntheticStep_def getNodeContent_def
          getNodeImages_def split: option.splits)
next
  case (Some ns)
  then show ?thesis
    by (cases ns)
       (simp_all add: stepsOf_def hasChildren_def childNodes_def syntheticStep_def stepOfNode_def
          getNodeContent_def getNodeImages_def fun_eq_iff split: option.splits)
qed

text \<open>
  C7. The chapters of the flattener's output are made from the top-level nodes of the
  manual (but for a first node without children), one chapter per node, and the
  articles of a chapter from the child nodes of its node, one article per child
  node, with the node's identifier and title. Every such article has at least one
  step. The article of a node without child nodes has exactly one step, made from
  the article node's own identifier, title, body and images; the article of a node
  with child nodes has one step per child node, in order, made from that child.
\<close>

theorem C7_every_article_has_a_step:
  "list_all2 (\<lambda>chapterNode chapter.
      list_all2 (\<lambda>articleNode article.
          ar_ID article = cn_ID articleNode \<and> ar_Title article = cn_Title articleNode
          \<and> Steps article \<noteq> []
          \<and> (childNodes articleNode = [] \<longrightarrow>
               Steps article =
                 [\<lparr> st_ID = cn_ID articleNode, st_Title = cn_Title articleNode, st_Order = 0,
                     st_Content = clean (case Localizations articleNode of
                                           None \<Rightarrow> [] | Some l \<Rightarrow> Content l),
                     st_Images = (case Localizations articleNode of
                                    None \<Rightarrow> []
                                  | Some l \<Rightarrow> (case Images l of None \<Rightarrow> [] | Some imgs \<Rightarrow> imgs)) \<rparr>])
          \<and> (childNodes articleNode \<noteq> [] \<longrightarrow>
               Steps article =
                 map (\<lambda>stepNode.
                        \<lparr> st_ID = cn_ID stepNode, st_Title = cn_Title stepNode,
                          st_Order = OrderIndex stepNode,
                          st_Content = clean (case Localizations stepNode of
                                                None \<Rightarrow> [] | Some l \<Rightarrow> Content l),
                          st_Images = (case Localizations stepNode of
                                         None \<Rightarrow> []
                                       | Some l \<Rightarrow> (case Images l of None \<Rightarrow> [] | Some imgs \<Rightarrow> imgs)) \<rparr>)
                     (childNodes articleNode)))
        (childNodes chapterNode) (Articles chapter))
     (chapterNodes manual) (flattenStructure clean manual)"
proof (rule flattenStructure_all2, rule chapterOf_all2)
  fix p n
  have s: "Steps (articleOf clean p n) = stepsOf clean n" by (simp add: articleOf_def)
  show "ar_ID (articleOf clean p n) = cn_ID n \<and> ar_Title (articleOf clean p n) = cn_Title n
          \<and> Steps (articleOf clean p n) \<noteq> []
          \<and> (childNodes n = [] \<longrightarrow>
               Steps (articleOf clean p n) =
                 [\<lparr> st_ID = cn_ID n, st_Title = cn_Title n, st_Order = 0,
                     st_Content = clean (case Localizations n of
                                           None \<Rightarrow> [] | Some l \<Rightarrow> Content l),
                     st_Images = (case Localizations n of
                                    None \<Rightarrow> []
                                  | Some l \<Rightarrow> (case Images l of None \<Rightarrow> [] | Some imgs \<Rightarrow> imgs)) \<rparr>])
          \<and> (childNodes n \<noteq> [] \<longrightarrow>
               Steps (articleOf clean p n) =
                 map (\<lambda>stepNode.
                        \<lparr> st_ID = cn_ID stepNode, st_Title = cn_Title stepNode,
                          st_Order = OrderIndex stepNode,
                          st_Content = clean (case Localizations stepNode of
                                                None \<Rightarrow> [] | Some l \<Rightarrow> Content l),
                          st_Images = (case Localizations stepNode of
                                         None \<Rightarrow> []
                                       | Some l \<Rightarrow> (case Images l of None \<Rightarrow> [] | Some imgs \<Rightarrow> imgs)) \<rparr>)
                     (childNodes n))"
    unfolding s stepsOf_cases by (simp add: articleOf_def)
qed

theorem C7_witness:
  "map cn_ID (chapterNodes sampleManual) = [''c1'']
   \<and> map (\<lambda>n. map (\<lambda>a. (cn_ID a, map cn_ID (childNodes a))) (childNodes n)) (chapterNodes sampleManual)
       = [[(''a1'', []), (''a2'', [''s1'', ''s1''])]]
   \<and> map (\<lambda>ch. map (\<lambda>a. (ar_ID a, map (\<lambda>s. (st_ID s, st_Order s, st_Content s)) (Steps a)))
                   (Articles ch))
         (flattenStructure id sampleManual)
       = [[(''a1'', [(''a1'', 0, ''<p>Hi</p>'')]), (''a2'', [(''s1'', 3, []), (''s1'', 3, [])])]]"
  using C7_every_article_has_a_step [of id sampleManual]
  by (simp add: flattenStructure_def sampleManual_def sampleArticleNode_def
        sampleStepNode_def hasChildren_def chapterOf_def articleOf_def stepsOf_def
        chapterNodes_def childNodes_def syntheticStep_def stepOfNode_def getNodeContent_def
        getNodeImages_def)

lemma chapterOf_Articles:
  "Articles (chapterOf clean n) = flattenArticles clean 1 (childNodes n)"
  by (cases "Children n") (simp_all add: chapterOf_def childNodes_def)

lemma flattenArticles_ids:
  "map ar_ID (flattenArticles clean p ns) = map cn_ID ns"
  by (induction ns arbitrary: p) (simp_all add: articleOf_def)

lemma flattenArticles_VLPOrder:
  "map VLPOrder (flattenArticles clean p ns) = map OrderIndex ns"
  by (induction ns arbitrary: p) (simp_all add: articleOf_def)

lemma flattenArticles_positions:
  "map Position (flattenArticles clean p ns) = map (\<lambda>j. p + int j) [0..<length ns]"
proof (induction ns arbitrary: p)
  case Nil
  show ?case by simp
next
  case (Cons n ns)
  have "map (\<lambda>j. p + int j) [0..<length (n # ns)]
          = p # map (\<lambda>j. p + int j) (map Suc [0..<length ns])"
    by (simp add: upt_conv_Cons map_Suc_upt del: upt_Suc)
  also have "\<dots> = p # map (\<lambda>j. (p + 1) + int j) [0..<length ns]"
    by simp
  finally show ?case using Cons.IH [of "p + 1"] by (simp add: articleOf_def)
qed

lemma stepsOf_withOrder: "stepsOf clean (withOrder n k) = stepsOf clean n"
  by (simp add: stepsOf_def withOrder_def hasChildren_def syntheticStep_def getNodeContent_def
        getNodeImages_def)

lemma articleOf_withOrder:
  "(articleOf clean p (withOrder n k))\<lparr>VLPOrder := 0\<rparr> = (articleOf clean p n)\<lparr>VLPOrder := 0\<rparr>"
  by (simp add: articleOf_def stepsOf_withOrder) (simp add: withOrder_def)

lemma flattenArticles_setOrders:
  "map (\<lambda>a. a\<lparr>VLPOrder := 0\<rparr>)
       (flattenArticles clean p (map (\<lambda>(j, n). withOrder n (h j)) (enumerate k ns)))
     = map (\<lambda>a. a\<lparr>VLPOrder := 0\<rparr>) (flattenArticles clean p ns)"
  by (induction ns arbitrary: p k) (simp_all add: articleOf_withOrder)

lemma childNodes_reorderNode: "childNodes (reorderNode h n) = setOrders h (childNodes n)"
  by (cases "Children n") (simp_all add: childNodes_def reorderNode_def setOrders_def)

lemma hasChildren_reorderNode: "hasChildren (reorderNode h n) = hasChildren n"
  by (cases "childNodes n") (simp_all add: hasChildren_childNodes childNodes_reorderNode setOrders_def)

lemma sansOrder_reorderNode:
  "sansOrder (chapterOf clean (reorderNode h n)) = sansOrder (chapterOf clean n)"
proof -
  have "map (\<lambda>a. a\<lparr>VLPOrder := 0\<rparr>) (Articles (chapterOf clean (reorderNode h n)))
      = map (\<lambda>a. a\<lparr>VLPOrder := 0\<rparr>) (Articles (chapterOf clean n))"
    unfolding chapterOf_Articles childNodes_reorderNode setOrders_def
    by (rule flattenArticles_setOrders)
  then show ?thesis
    by (simp add: sansOrder_def) (simp add: chapterOf_def reorderNode_def getNodeContent_def)
qed

lemma flattenChapters_reorder:
  "map sansOrder (flattenChapters clean i (map (\<lambda>(i, n). reorderNode (g i) n) (enumerate k ns)))
     = map sansOrder (flattenChapters clean i ns)"
  by (induction ns arbitrary: i k) (simp_all add: hasChildren_reorderNode sansOrder_reorderNode)

text \<open>
  C8. The articles of a chapter are those of the child nodes of the chapter's node, in
  the order in which the source lists them, with the positions 1, 2, ..., n in that
  order; the order field of a node is only copied into \<open>VLPOrder\<close>. Whatever values
  are put into the order fields of the article nodes (\<open>g i j\<close> for the \<open>j\<close>-th child
  of the \<open>i\<close>-th top-level node; a permutation of the values is one such choice),
  the flattener's output is the same but for \<open>VLPOrder\<close>: the same articles are at
  the same positions.
\<close>

theorem C8_positions_sequential:
  "list_all2 (\<lambda>chapterNode chapter.
       map ar_ID (Articles chapter) = map cn_ID (childNodes chapterNode)
       \<and> map Position (Articles chapter) = map (\<lambda>j. 1 + int j) [0..<length (childNodes chapterNode)]
       \<and> map VLPOrder (Articles chapter) = map OrderIndex (childNodes chapterNode))
     (chapterNodes manual) (flattenStructure clean manual)
   \<and> map sansOrder (flattenStructure clean (reorderManual g manual))
       = map sansOrder (flattenStructure clean manual)"
proof
  show "list_all2 (\<lambda>chapterNode chapter.
       map ar_ID (Articles chapter) = map cn_ID (childNodes chapterNode)
       \<and> map Position (Articles chapter) = map (\<lambda>j. 1 + int j) [0..<length (childNodes chapterNode)]
       \<and> map VLPOrder (Articles chapter) = map OrderIndex (childNodes chapterNode))
     (chapterNodes manual) (flattenStructure clean manual)"
    by (rule flattenStructure_all2)
       (simp add: chapterOf_Articles flattenArticles_ids flattenArticles_positions
          flattenArticles_VLPOrder)
  have "ContentNodes (reorderManual g manual)
      = map (\<lambda>(i, n). reorderNode (g i) n) (enumerate 0 (ContentNodes manual))"
    by (simp add: reorderManual_def)
  then show "map sansOrder (flattenStructure clean (reorderManual g manual))
       = map sansOrder (flattenStructure clean manual)"
    by (simp add: flattenStructure_def flattenChapters_reorder)
qed

theorem C8_witness:
  "map ContentNodes [reorderManual (\<lambda>i j. 5 - int j) sampleManual]
     = [[ContentNode ''t0'' ''Lab'' 0 None None,
         ContentNode ''c1'' ''Chapter'' 5
           (Some [withOrder sampleArticleNode 5,
                  ContentNode ''a2'' ''Second'' 4 (Some [sampleStepNode, sampleStepNode]) None])
           None]]
   \<and> map (\<lambda>ch. map (\<lambda>a. (ar_ID a, Position a, VLPOrder a)) (Articles ch))
         (flattenStructure id sampleManual) = [[(''a1'', 1, 7), (''a2'', 2, 2)]]
   \<and> map (\<lambda>ch. map (\<lambda>a. (ar_ID a, Position a, VLPOrder a)) (Articles ch))
         (flattenStructure id (reorderManual (\<lambda>i j. 5 - int j) sampleManual))
       = [[(''a1'', 1, 5), (''a2'', 2, 4)]]
   \<and> map sansOrder (flattenStructure id (reorderManual (\<lambda>i j. 5 - int j) sampleManual))
       = map sansOrder (flattenStructure id sampleManual)"
  using C8_positions_sequential [of sampleManual id "\<lambda>i j. 5 - int j"]
  by (simp add: flattenStructure_def sampleManual_def sampleArticleNode_def
        sampleStepNode_def hasChildren_def chapterOf_def articleOf_def
        reorderManual_def reorderNode_def setOrders_def withOrder_def enumerate_Suc_eq)

text \<open>
  C10. Take the article node that is the \<open>j\<close>-th child of the \<open>i\<close>-th chapter node
  of a manual and has no child nodes. The flattener's output has a chapter \<open>i\<close> with
  an article \<open>j\<close>, and that article has exactly one step: its identifier and title are
  those of the article node, its order is 0 (whatever the order index of the node
  is), its content is the cleaned body of the node's localized content (the cleaned
  empty string if it has none) and its images are the images of the node's localized
  content (none if it has none).
\<close>

theorem C10_synthetic_step_fields:
  assumes "i < length (chapterNodes manual)"
    and "j < length (childNodes (chapterNodes manual ! i))"
    and "childNodes (childNodes (chapterNodes manual ! i) ! j) = []"
  shows "i < length (flattenStructure clean manual)
    \<and> j < length (Articles (flattenStructure clean manual ! i))
    \<and> (\<exists>s. Steps (Articles (flattenStructure clean manual ! i) ! j) = [s]
          \<and> st_ID s = cn_ID (childNodes (chapterNodes manual ! i) ! j)
          \<and> st_Title s = cn_Title (childNodes (chapterNodes manual ! i) ! j)
          \<and> st_Order s = 0
          \<and> st_Content s =
              clean (case Localizations (childNodes (chapterNodes manual ! i) ! j) of
                       None \<Rightarrow> [] | Some l \<Rightarrow> Content l)
          \<and> st_Images s =
              (case Localizations (childNodes (chapterNodes manual ! i) ! j) of
                 None \<Rightarrow> []
               | Some l \<Rightarrow> (case Images l of None \<Rightarrow> [] | Some imgs \<Rightarrow> imgs)))"
proof -
  let ?n = "chapterNodes manual ! i"
  let ?a = "childNodes ?n ! j"
  have c: "flattenStructure clean manual ! i = chapterOf clean ?n"
    using assms(1) by (simp add: flattenStructure_map)
  have a: "Articles (flattenStructure clean manual ! i) ! j = articleOf clean (1 + int j) ?a"
    unfolding c chapterOf_Articles using assms(2) by (rule flattenArticles_nth)
  have s: "Steps (articleOf clean (1 + int j) ?a) = stepsOf clean ?a"
    by (simp add: articleOf_def)
  have l1: "i < length (flattenStructure clean manual)"
    using assms(1) by (simp add: flattenStructure_map)
  have l2: "j < length (Articles (flattenStructure clean manual ! i))"
    unfolding c chapterOf_Articles using assms(2) by (simp add: flattenArticles_length)
  show ?thesis
    unfolding a s stepsOf_cases using l1 l2 assms(3) by simp
qed

theorem C10_witness:
  "(0::nat) < length (chapterNodes sampleManual)
   \<and> (0::nat) < length (childNodes (chapterNodes sampleManual ! 0))
   \<and> childNodes (chapterNodes sampleManual ! 0) ! 0 = sampleArticleNode
   \<and> childNodes sampleArticleNode = []
   \<and> OrderIndex sampleArticleNode = 7
   \<and> (\<exists>s. Steps (Articles (flattenStructure id sampleManual ! 0) ! 0) = [s]
       \<and> st_ID s = ''a1'' \<and> st_Title s = ''Intro'' \<and> st_Order s = 0
       \<and> st_Content s = ''<p>Hi</p>''
       \<and> st_Images s = [\<lparr> Src = ''images/x.png'', Filename = ''x.png'',
                           Width = ''10'', Height = ''20'' \<rparr>])"
proof -
  have h1: "(0::nat) < length (chapterNodes sampleManual)"
    by (simp add: chapterNodes_def sampleManual_def childNodes_def)
  have h2: "(0::nat) < length (childNodes (chapterNodes sampleManual ! 0))"
    by (simp add: chapterNodes_def sampleManual_def childNodes_def)
  have h3: "childNodes (chapterNodes sampleManual ! 0) ! 0 = sampleArticleNode"
    by (simp add: chapterNodes_def sampleManual_def childNodes_def)
  have h4: "childNodes sampleArticleNode = []"
    by (simp add: sampleArticleNode_def childNodes_def)
  have h5: "OrderIndex sampleArticleNode = 7" by (simp add: sampleArticleNode_def)
  from h4 have h4': "childNodes (childNodes (chapterNodes sampleManual ! 0) ! 0) = []"
    by (simp only: h3)
  from C10_synthetic_step_fields [OF h1 h2 h4', of id]
  have "\<exists>s. Steps (Articles (flattenStructure id sampleManual ! 0) ! 0) = [s]
       \<and> st_ID s = ''a1'' \<and> st_Title s = ''Intro'' \<and> st_Order s = 0
       \<and> st_Content s = ''<p>Hi</p>''
       \<and> st_Images s = [\<lparr> Src = ''images/x.png'', Filename = ''x.png'',
                           Width = ''10'', Height = ''20'' \<rparr>]"
    unfolding h3 by (simp add: sampleArticleNode_def)
  with h1 h2 h3 h4 h5 show ?thesis by (intro conjI)
qed


section \<open>Properties of the content blocks\<close>

lemma sortOrdersOK_snoc:
  "sortOrdersOK bs \<Longrightarrow> sort_order b = 1 + int (length bs) \<Longrightarrow> sortOrdersOK (bs @ [b])"
  by (simp add: sortOrdersOK_def)

lemma sortOrdersOK_update:
  "sortOrdersOK bs \<Longrightarrow> sort_order b = sort_order (bs ! i) \<Longrightarrow> sortOrdersOK (bs[i := b])"
proof -
  assume a: "sortOrdersOK bs" and e: "sort_order b = sort_order (bs ! i)"
  have "map sort_order (bs[i := b]) = (map sort_order bs)[i := sort_order (bs ! i)]"
    by (simp add: map_update e)
  also have "\<dots> = map sort_order bs"
  proof (cases "i < length bs")
    case True
    then have "sort_order (bs ! i) = map sort_order bs ! i" by simp
    then show ?thesis by (simp only: list_update_id)
  next
    case False
    then have "length (map sort_order bs) \<le> i" by simp
    then show ?thesis by (rule list_update_beyond)
  qed
  finally show ?thesis using a by (simp add: sortOrdersOK_def)
qed

lemma refsLater_snoc:
  assumes "refsLater bs" and "content_block_ids b = []"
  shows "refsLater (bs @ [b])"
  unfolding refsLater_def
proof (intro ballI)
  fix i c
  assume i: "i \<in> {0..<length (bs @ [b])}" and c: "c \<in> set (content_block_ids ((bs @ [b]) ! i))"
  show "\<exists>j \<in> {i + 1..<length (bs @ [b])}. uuid ((bs @ [b]) ! j) = c"
  proof (cases "i < length bs")
    case True
    with c have "c \<in> set (content_block_ids (bs ! i))" by (simp add: nth_append)
    with assms(1) True obtain j where "j \<in> {i + 1..<length bs}" "uuid (bs ! j) = c"
      unfolding refsLater_def by force
    then show ?thesis by (intro bexI [of _ j]) (simp_all add: nth_append)
  next
    case False
    with i have "i = length bs" by simp
    with c assms(2) show ?thesis by simp
  qed
qed

lemma refsLater_addChild:
  assumes r: "refsLater bs" and si: "si < length bs" and k: "si < k" "k < length bs"
    and u: "uuid (bs ! k) = u"
    and b: "uuid b = uuid (bs ! si)" "content_block_ids b = content_block_ids (bs ! si) @ [u]"
  shows "refsLater (bs[si := b])"
  unfolding refsLater_def
proof (intro ballI)
  fix i c
  assume i: "i \<in> {0..<length (bs[si := b])}"
    and c: "c \<in> set (content_block_ids (bs[si := b] ! i))"
  have same: "uuid (bs[si := b] ! j) = uuid (bs ! j)" if "j < length bs" for j
    using that b(1) by (cases "j = si") simp_all
  have "\<exists>j \<in> {i + 1..<length bs}. uuid (bs ! j) = c"
  proof (cases "i = si")
    case True
    with c si b(2) have "c \<in> set (content_block_ids (bs ! si)) \<or> c = u" by auto
    then show ?thesis
    proof
      assume "c \<in> set (content_block_ids (bs ! si))"
      with r si True show ?thesis unfolding refsLater_def by force
    next
      assume "c = u"
      with k u True show ?thesis by (intro bexI [of _ k]) simp_all
    qed
  next
    case False
    with c i have "c \<in> set (content_block_ids (bs ! i))" by simp
    with r i show ?thesis unfolding refsLater_def by force
  qed
  then obtain j where "j \<in> {i + 1..<length bs}" "uuid (bs ! j) = c" by blast
  then show "\<exists>j \<in> {i + 1..<length (bs[si := b])}. uuid (bs[si := b] ! j) = c"
    using same [of j] by (intro bexI [of _ j]) simp_all
qed

lemma emit_inv:
  assumes inv: "blocksInv st" and si: "si < length (contentBlocks st)" and f: "keepsKeys fill"
  shows "blocksInv (emit w si fill t st) \<and> si < length (contentBlocks (emit w si fill t st))
         \<and> skippedImages (emit w si fill t st) = skippedImages st"
proof -
  let ?u = "uuidOf w (drawn st)"
  let ?blk = "fill (newBlock ?u t 1 (sortOrder st))"
  let ?bs = "contentBlocks st @ [?blk]"
  let ?sb = "(?bs ! si)\<lparr>content_block_ids := content_block_ids (?bs ! si) @ [?u]\<rparr>"
  have blk: "uuid ?blk = ?u" "sort_order ?blk = sortOrder st" "content_block_ids ?blk = []"
    using f by (simp_all add: keepsKeys_def newBlock_def)
  have so: "sortOrdersOK ?bs"
    using inv blk by (intro sortOrdersOK_snoc) (simp_all add: blocksInv_def)
  have rl: "refsLater ?bs"
    using inv blk by (intro refsLater_snoc) (simp_all add: blocksInv_def)
  have so': "sortOrdersOK (?bs[si := ?sb])"
    using so by (intro sortOrdersOK_update) simp_all
  have rl': "refsLater (?bs[si := ?sb])"
    using rl si blk
    by (intro refsLater_addChild [where k = "length (contentBlocks st)" and u = ?u]) simp_all
  have eq: "contentBlocks (emit w si fill t st) = ?bs[si := ?sb]"
    by (simp add: emit_def Let_def)
  show ?thesis
    using so' rl' inv si unfolding blocksInv_def eq
    by (simp add: emit_def Let_def)
qed

lemma emit_stepInv:
  "stepInv si st \<Longrightarrow> keepsKeys fill \<Longrightarrow> stepInv si (emit w si fill t st)"
  using emit_inv [of st si fill w t] by (simp add: stepInv_def)

lemma stepInv_fields:
  "stepInv si st \<Longrightarrow> contentBlocks st' = contentBlocks st \<Longrightarrow> sortOrder st' = sortOrder st
     \<Longrightarrow> stepInv si st'"
  by (simp add: stepInv_def blocksInv_def)

lemma textBlock_stepInv: "stepInv si st \<Longrightarrow> stepInv si (textBlock w si txt st)"
  by (simp add: textBlock_def emit_stepInv keepsKeys_def)

lemma imageBlock_stepInv:
  assumes "stepInv si st" and "imageBlock tabs w ctx si blockHTML st = Inr st'"
  shows "stepInv si st'"
proof -
  have c: "stepInv si (st\<lparr>calls := calls st + 1\<rparr>)"
    using assms(1) by (rule stepInv_fields) simp_all
  have k: "keepsKeys (\<lambda>b. b\<lparr>asset_file_name := fn, image_asset_id := a, width := wd,
                            height := ht, url := ur\<rparr>)" for fn a wd ht ur
    by (simp add: keepsKeys_def)
  have e: "stepInv si ((emit w si fill t (st\<lparr>calls := calls st + 1\<rparr>))
             \<lparr>uploadedImagesCount := n\<rparr>)" if "keepsKeys fill" for fill t n
    using emit_stepInv [OF c that, of w t] by (rule stepInv_fields) simp_all
  show ?thesis
    using assms c e k
    by (auto simp: imageBlock_def Let_def skip_def
          split: option.splits uploadResult.splits if_splits
          intro: stepInv_fields)
qed

lemma specialBlock_stepInv:
  assumes "stepInv si st" and "specialBlock tabs w ctx si blockHTML st = Inr st'"
  shows "stepInv si st'"
  using assms
  by (auto simp: specialBlock_def keepsKeys_def
        split: if_splits option.splits
        intro: emit_stepInv imageBlock_stepInv)

lemma blockLoop_stepInv:
  "stepInv si st \<Longrightarrow> blockLoop tabs w ctx si content lastIndex indexes st = Inr st'
     \<Longrightarrow> stepInv si st'"
proof (induction indexes arbitrary: lastIndex st)
  case Nil
  then show ?case by (auto intro: textBlock_stepInv)
next
  case (Cons idx indexes)
  obtain start stop where idx: "idx = (start, stop)" by (cases idx)
  from Cons.prems(2) obtain st1 where
    s1: "specialBlock tabs w ctx si (slice content start stop)
           (textBlock w si (slice content lastIndex start) st) = Inr st1"
    and l: "blockLoop tabs w ctx si content stop indexes st1 = Inr st'"
    by (auto simp: idx split: sum.splits)
  have "stepInv si (textBlock w si (slice content lastIndex start) st)"
    using Cons.prems(1) by (rule textBlock_stepInv)
  then have "stepInv si st1" using s1 by (rule specialBlock_stepInv)
  then show ?case using l by (rule Cons.IH)
qed

lemma stepBlocks_inv:
  assumes "blocksInv st" and "stepBlocks tabs w ctx step st = Inr st'"
  shows "blocksInv st'"
proof -
  let ?sb = "(newBlock (uuidOf w (drawn st)) StepContent 0 (sortOrder st))\<lparr>title := st_Title step\<rparr>"
  let ?st1 = "st\<lparr> contentBlocks := contentBlocks st @ [?sb],
                    sortOrder := sortOrder st + 1, drawn := drawn st + 1 \<rparr>"
  have "blocksInv ?st1"
    using assms(1)
    by (simp add: blocksInv_def sortOrdersOK_snoc refsLater_snoc newBlock_def)
  then have "stepInv (length (contentBlocks st)) ?st1"
    by (simp add: stepInv_def)
  moreover have "blockLoop tabs w (ctx\<lparr>stepTitle := st_Title step\<rparr>) (length (contentBlocks st))
      (st_Content step) 0 (FindAllStringIndex blockRegex (st_Content step)) ?st1 = Inr st'"
    using assms(2) by (simp add: stepBlocks_def Let_def)
  ultimately have "stepInv (length (contentBlocks st)) st'"
    by (rule blockLoop_stepInv)
  then show ?thesis by (simp add: stepInv_def)
qed

lemma stepsLoop_inv:
  "blocksInv st \<Longrightarrow> stepsLoop tabs w ctx steps st = Inr st' \<Longrightarrow> blocksInv st'"
proof (induction steps arbitrary: st)
  case Nil
  then show ?case by simp
next
  case (Cons step steps)
  from Cons.prems(2) obtain st1 where
    s1: "stepBlocks tabs w ctx step st = Inr st1" and l: "stepsLoop tabs w ctx steps st1 = Inr st'"
    by (auto split: sum.splits)
  from Cons.prems(1) s1 have "blocksInv st1" by (rule stepBlocks_inv)
  then show ?case using l by (rule Cons.IH)
qed

lemma articleBlocks_inv:
  assumes "articleBlocks tabs w dir chTitle article st = Inr st'"
  shows "blocksInv st'"
proof -
  have "blocksInv (st\<lparr>contentBlocks := [], sortOrder := 1\<rparr>)"
    by (simp add: blocksInv_def sortOrdersOK_def refsLater_def)
  then show ?thesis
    using assms unfolding articleBlocks_def by (rule stepsLoop_inv)
qed

text \<open>
  C1 (amended). For every article processed for upload, the sort orders of the generated
  block list are 1, 2, ..., n in list order (one increment per emitted block, the step
  header included, which is appended before the blocks of its content), and every
  identifier in a child-identifier list is the identifier of a block further down the
  same block list.
\<close>

theorem C1_sort_orders_and_forward_references:
  assumes "articleBlocks tabs w dir chTitle article st = Inr st'"
  shows "map sort_order (contentBlocks st') = map (\<lambda>i. 1 + int i) [0..<length (contentBlocks st')]
    \<and> (\<forall>i < length (contentBlocks st').
          \<forall>c \<in> set (content_block_ids (contentBlocks st' ! i)).
            \<exists>j. i < j \<and> j < length (contentBlocks st') \<and> uuid (contentBlocks st' ! j) = c)"
proof -
  from assms have inv: "blocksInv st'" by (rule articleBlocks_inv)
  then have "sortOrdersOK (contentBlocks st')" and r: "refsLater (contentBlocks st')"
    by (simp_all add: blocksInv_def)
  then have "map sort_order (contentBlocks st') = map (\<lambda>i. 1 + int i) [0..<length (contentBlocks st')]"
    by (simp add: sortOrdersOK_def)
  moreover have "\<exists>j. i < j \<and> j < length (contentBlocks st') \<and> uuid (contentBlocks st' ! j) = c"
    if "i < length (contentBlocks st')" "c \<in> set (content_block_ids (contentBlocks st' ! i))" for i c
  proof -
    from r that obtain j where "j \<in> {i + 1..<length (contentBlocks st')}"
      "uuid (contentBlocks st' ! j) = c"
      unfolding refsLater_def by force
    then show ?thesis by (intro exI [of _ j]) simp
  qed
  ultimately show ?thesis by blast
qed

theorem C1_witness:
  "articleBlocks sampleTables sampleWorld ''out'' ''Ch'' sampleArticle initState
     = Inr (projr (articleBlocks sampleTables sampleWorld ''out'' ''Ch'' sampleArticle initState))
   \<and> map sort_order (blocksOf sampleTables sampleWorld ''out'' ''Ch'' sampleArticle)
       = [1, 2, 3, 4, 5, 6, 7]
   \<and> map (\<lambda>b. (uuid b, content_block_ids b)) (blocksOf sampleTables sampleWorld ''out'' ''Ch'' sampleArticle)
       = [(''u'', [''ui'', ''uii'', ''uiii'', ''uiiii'']), (''ui'', []), (''uii'', []),
          (''uiii'', []), (''uiiii'', []), (''uiiiii'', [''uiiiiii'']), (''uiiiiii'', [])]
   \<and> map sort_order (blocksOf sampleTables sampleWorld ''out'' ''Ch'' sampleArticle)
       = map (\<lambda>i. 1 + int i) [0..<length (blocksOf sampleTables sampleWorld ''out'' ''Ch'' sampleArticle)]"
proof -
  let ?r = "articleBlocks sampleTables sampleWorld ''out'' ''Ch'' sampleArticle initState"
  have ok: "(case ?r of Inl a \<Rightarrow> False | Inr st \<Rightarrow> True)" by code_simp
  then have e: "?r = Inr (projr ?r)" by (cases ?r) simp_all
  have b: "blocksOf sampleTables sampleWorld ''out'' ''Ch'' sampleArticle
             = contentBlocks (projr ?r)"
    unfolding blocksOf_def by (subst e) simp
  have v1: "map sort_order (blocksOf sampleTables sampleWorld ''out'' ''Ch'' sampleArticle)
       = [1, 2, 3, 4, 5, 6, 7]" by code_simp
  have v2: "map (\<lambda>b. (uuid b, content_block_ids b)) (blocksOf sampleTables sampleWorld ''out'' ''Ch'' sampleArticle)
       = [(''u'', [''ui'', ''uii'', ''uiii'', ''uiiii'']), (''ui'', []), (''uii'', []),
          (''uiii'', []), (''uiiii'', []), (''uiiiii'', [''uiiiiii'']), (''uiiiiii'', [])]"
    by code_simp
  from C1_sort_orders_and_forward_references [OF e]
  have "map sort_order (contentBlocks (projr ?r))
          = map (\<lambda>i. 1 + int i) [0..<length (contentBlocks (projr ?r))]"
    by (rule conjunct1)
  with b e v1 v2 show ?thesis by simp
qed

text \<open>
  C1 as stated fails in its second half. The article \<open>tinyArticle\<close> has one step
  with the content \<^verbatim>\<open>bye\<close>; its block list is the step block followed by one text
  block, and the one child identifier of the step block is the identifier of the text
  block, which stands after the step block, not before it or at its position.
\<close>

theorem C1_counterexample:
  "map (\<lambda>b. (btype b, uuid b, sort_order b, content_block_ids b))
       (blocksOf sampleTables sampleWorld ''out'' ''Ch'' tinyArticle)
     = [(StepContent, ''u'', 1, [''ui'']), (TextContent, ''ui'', 2, [])]
   \<and> \<not> refsEarlierOrSame (blocksOf sampleTables sampleWorld ''out'' ''Ch'' tinyArticle)"
  by code_simp


section \<open>Properties of the run\<close>

lemma emit_skipped [simp]: "skippedImages (emit w si fill t st) = skippedImages st"
  by (simp add: emit_def Let_def)

lemma emit_calls [simp]: "calls (emit w si fill t st) = calls st"
  by (simp add: emit_def Let_def)

lemma textBlock_skipped [simp]: "skippedImages (textBlock w si txt st) = skippedImages st"
  by (simp add: textBlock_def)

lemma textBlock_calls [simp]: "calls (textBlock w si txt st) = calls st"
  by (simp add: textBlock_def)

















section \<open>The rewriter and the order of the map visit\<close>

text \<open>
  C2 fails on the code: the HTML rewriting is not a function of the input alone. The
  loop of \<^verbatim>\<open>convertVLPParagraphStyles\<close> visits a Go map, and for a paragraph that
  carries both the class \<^verbatim>\<open>c10\<close> (introduction) and the class \<^verbatim>\<open>c48\<close> (info)
  the wrapper of the class visited first ends up outside the wrapper of the class
  visited later. Two runs on the same input may visit the map in different orders and
  then write different content into the JSON files.
\<close>

theorem C2_output_depends_on_map_order:
  "set orderA = set pClassToStyleMap \<and> set orderB = set pClassToStyleMap
   \<and> cleanHTML sampleTables orderA ''<p class=\"c10 c48\">x</p>''
       = ''<div class=\"screensteps-styled-block\" data-style=\"introduction\"><div class=\"screensteps-styled-block\" data-style=\"info\"><p class=\"c10 c48\">x</p></div></div>''
   \<and> cleanHTML sampleTables orderB ''<p class=\"c10 c48\">x</p>''
       = ''<div class=\"screensteps-styled-block\" data-style=\"info\"><div class=\"screensteps-styled-block\" data-style=\"introduction\"><p class=\"c10 c48\">x</p></div></div>''
   \<and> cleanHTML sampleTables orderA ''<p class=\"c10 c48\">x</p>''
       \<noteq> cleanHTML sampleTables orderB ''<p class=\"c10 c48\">x</p>''"
  by code_simp


section \<open>Properties of the matcher and of the pass over the spans\<close>

lemma stripPrefix_append [simp]: "stripPrefix w (w @ s) = Some s"
  by (induction w) simp_all

lemma lastOr_append [simp]: "lastOr p (a @ b) = lastOr (lastOr p a) b"
  by (induction a arbitrary: p) simp_all

lemma heads_Lit [simp]: "heads x (Lit (x # w))"
  unfolding heads_def
proof (intro allI impI)
  fix k p s caps
  assume "s = [] \<or> hd s \<noteq> x"
  then show "rmatch (Lit (x # w)) k (p, s, caps) = None"
    by (cases s) auto
qed

lemma heads_Seq [simp]: "heads x a \<Longrightarrow> heads x (Seq a b)"
  by (simp add: heads_def)



lemma needsPrefixD:
  assumes "needsPrefix w r" and "stripPrefix w s = None"
  shows "matchAt r p s = None"
  using assms(1) [unfolded needsPrefix_def, rule_format, OF assms(2), of Some p "[]"]
  by (simp add: matchAt_def)


text \<open>Quiet texts: concatenation, plain text, and text that begins with its only \<^verbatim>\<open><\<close>.\<close>

lemma quietD: "quiet r (v @ w) \<Longrightarrow> v \<noteq> [] \<Longrightarrow> matchAt r p (v @ w @ rest) = None"
  unfolding quiet_def by (metis append_Nil append_assoc append_is_Nil_conv)








text \<open>A literal is no prefix of a text in which it does not occur, whatever follows
  a byte that is not in the literal.\<close>

lemma stripPrefix_bounded:
  assumes "\<not> HasPrefix t w" and "x \<notin> set w"
  shows "stripPrefix w (t @ x # rest) = None"
  using assms
proof (induction w t rule: stripPrefix.induct)
  case (1 s)
  then show ?case by (simp add: HasPrefix_def)
next
  case (2 c cs)
  then show ?case by auto
next
  case (3 c cs d ds)
  then show ?case by (auto simp: HasPrefix_def)
qed









lemma cat_Cons: "cat (r # rs) = Seq r (cat rs)"
  by (simp add: cat_def)


lemma needsPrefix_Lit: "needsPrefix w (Seq (Lit w) r)"
  by (simp add: needsPrefix_def)

lemma needsPrefix_Lit1: "needsPrefix w (Lit w)"
  by (simp add: needsPrefix_def)







lemma needsPrefix_spanRegex: "needsPrefix ''<span'' spanRegex"
  unfolding spanRegex_def cat_Cons by (rule needsPrefix_Lit)

lemma needsPrefix_emptySpan: "needsPrefix ''<span'' emptySpanPattern"
  unfolding emptySpanPattern_def cat_Cons by (rule needsPrefix_Lit)

text \<open>Tags at which a pattern finds no match.\<close>

lemma deaf_prefix:
  assumes "needsPrefix (CHR ''<'' # w) r" and "\<not> HasPrefix t w" and "CHR ''>'' \<notin> set w"
  shows "deaf r t"
  unfolding deaf_def
proof (intro allI)
  fix rest p
  from stripPrefix_bounded [OF assms(2,3), of rest]
  have "stripPrefix (CHR ''<'' # w) (CHR ''<'' # t @ CHR ''>'' # rest) = None" by simp
  with assms(1) show "matchAt r p (CHR ''<'' # t @ CHR ''>'' # rest) = None"
    by (rule needsPrefixD)
qed






lemma span_deaf:
  assumes "neutral t"
  shows "deaf spanRegex t" and "deaf emptySpanPattern t"
proof -
  from assms have h: "\<not> HasPrefix t ''span''" by (simp add: neutral_def)
  have "needsPrefix (CHR ''<'' # ''span'') spanRegex" using needsPrefix_spanRegex by simp
  then show "deaf spanRegex t" using h by (rule deaf_prefix) simp
  have "needsPrefix (CHR ''<'' # ''span'') emptySpanPattern" using needsPrefix_emptySpan by simp
  then show "deaf emptySpanPattern t" using h by (rule deaf_prefix) simp
qed









lemma hits_Chr [simp]: "hits (map Chr u) = []"
  by (induction u) simp_all

lemma replaceSegs_Chr [simp]: "replaceSegs f (map Chr u @ segs) = u @ replaceSegs f segs"
  by (induction u) simp_all

lemma replaceSegs_Chr_whole [simp]: "replaceSegs f (map Chr u) = u"
  using replaceSegs_Chr [of f u "[]"] by simp




















































end
